theory Spec2Isabelle
  imports Complex_Main "HOL-Library.Word"
begin

section \<open>Asset decoding of MiscAssets.cpp: common data\<close>

text \<open>
  Failures of the C++ code are values. The first three are the exceptions the code
  throws (\<open>std::out_of_range\<close> from \<open>at\<close> and \<open>std::stoi\<close>, \<open>std::invalid_argument\<close>
  from \<open>std::stoi\<close>, \<open>std::runtime_error\<close> with its message), the fourth a failed
  \<open>DebugAssert\<close>; the last three stand for undefined behaviour of the C++ program
  (integer division by zero, a dereferenced null pointer, a read outside the buffer).
\<close>

datatype error =
    OutOfRange
  | InvalidArgument
  | RuntimeError string
  | AssertionFailed
  | DivideByZero
  | NullDereference
  | ReadPastEnd

datatype ArmorMaterialType = Leather | Chain | Plate

datatype CharacterClassCategoryName = Mage | Thief | Warrior

text \<open>\<open>std::vector::at\<close> and \<open>std::array::at\<close> with an index of type \<open>size_t\<close>.\<close>

definition at_nat :: "'a list \<Rightarrow> nat \<Rightarrow> error + 'a" where
  "at_nat xs i = (if i < length xs then Inr (xs ! i) else Inl OutOfRange)"

text \<open>
  The same with an \<open>int\<close> index: a negative index converts to a huge \<open>size_t\<close>,
  which is out of range.
\<close>

definition at_int :: "'a list \<Rightarrow> int \<Rightarrow> error + 'a" where
  "at_int xs i = (if 0 \<le> i \<and> i < int (length xs) then Inr (xs ! nat i) else Inl OutOfRange)"

section \<open>parseClasses: the allowedArmors and lockpicking lambdas\<close>

text \<open>
  \<open>allowedArmorsValues\<close> holds one coded byte per class; the lambda reads the byte of
  class \<open>i\<close> with \<open>at\<close> and maps it to the vector of allowed armor materials. The
  message of the exception for any other value ends with the value in quotes; the model
  keeps its fixed part.
\<close>

definition allowedArmorsOfValue :: "8 word \<Rightarrow> error + ArmorMaterialType list" where
  "allowedArmorsOfValue v =
     (if v = 0 then Inr [Leather, Chain, Plate]
      else if v = 1 then Inr [Leather, Chain]
      else if v = 2 then Inr [Leather]
      else if v = 3 then Inr []
      else Inl (RuntimeError ''Bad allowed armors value''))"

definition allowedArmors :: "8 word list \<Rightarrow> nat \<Rightarrow> error + ArmorMaterialType list" where
  "allowedArmors allowedArmorsValues i =
     (case at_nat allowedArmorsValues i of
        Inl e \<Rightarrow> Inl e
      | Inr v \<Rightarrow> allowedArmorsOfValue v)"







section \<open>parseQuestionTxt: the getCategory lambda\<close>

text \<open>
  \<open>std::string::find\<close> returns a \<open>size_t\<close>: the first position at which the pattern
  occurs, or \<open>npos\<close> (all bits set) when it does not occur. \<open>find_first\<close> is the search,
  \<open>string_find\<close> the \<open>size_t\<close> result (64 bits).
\<close>

fun find_first :: "string \<Rightarrow> string \<Rightarrow> nat option" where
  "find_first pat [] = (if pat = [] then Some 0 else None)"
| "find_first pat (c # cs) =
     (if take (length pat) (c # cs) = pat then Some 0
      else map_option Suc (find_first pat cs))"

definition npos :: "64 word" where
  "npos = - 1"

definition string_find :: "string \<Rightarrow> string \<Rightarrow> 64 word" where
  "string_find s pat = (case find_first pat s of None \<Rightarrow> npos | Some p \<Rightarrow> of_nat p)"

definition string_at :: "string \<Rightarrow> 64 word \<Rightarrow> error + char" where
  "string_at s i = at_nat s (unat i)"

definition getCategory :: "string \<Rightarrow> error + CharacterClassCategoryName" where
  "getCategory choice =
     (case string_at choice (string_find choice ''(5'' + 2) of
        Inl e \<Rightarrow> Inl e
      | Inr categoryChar \<Rightarrow>
          if categoryChar = CHR ''l'' then Inr Mage
          else if categoryChar = CHR ''c'' then Inr Thief
          else if categoryChar = CHR ''v'' then Inr Warrior
          else Inl (RuntimeError ''Bad QUESTION.TXT class category.''))"

section \<open>Line-oriented text parsers\<close>

text \<open>
  The loop \<open>while (std::getline(iss, line))\<close>: each call takes the characters up to
  the next line feed, which it consumes and drops; at the end of the text a last line
  without line feed is still returned when it is not empty, and a call that finds no
  character at all fails and ends the loop. \<open>getlines\<close> is the list of lines the loop
  body sees; \<open>split_lines\<close> carries the line read so far.
\<close>

fun split_lines :: "string \<Rightarrow> string \<Rightarrow> string list" where
  "split_lines cur [] = (if cur = [] then [] else [cur])"
| "split_lines cur (c # cs) =
     (if c = CHR 0x0A then cur # split_lines [] cs else split_lines (cur @ [c]) cs)"

definition getlines :: "string \<Rightarrow> string list" where
  "getlines text = split_lines [] text"

text \<open>
  Modelled from the spec: \<open>String::replace\<close>, \<open>String::trim\<close> and \<open>String::trimLines\<close>
  are declared in Utilities/String.h, which is not among the sources. The spec describes
  the value cleanup as a normalisation of carriage returns to line feeds, so
  \<open>String_replace\<close> replaces every occurrence of one character by another; the keys are
  the \<open>#\<close>-prefixed key strings, so \<open>String_trimLines\<close> removes the carriage returns and
  line feeds left on the key line and \<open>String_trim\<close> its spaces.
\<close>

definition String_replace :: "string \<Rightarrow> char \<Rightarrow> char \<Rightarrow> string" where
  "String_replace str a b = map (\<lambda>c. if c = a then b else c) str"

definition String_trimLines :: "string \<Rightarrow> string" where
  "String_trimLines str = filter (\<lambda>c. c \<noteq> CHR 0x0D \<and> c \<noteq> CHR 0x0A) str"

definition String_trim :: "string \<Rightarrow> string" where
  "String_trim str = filter (\<lambda>c. c \<noteq> CHR '' '') str"

subsection \<open>parseTemplateDat\<close>

text \<open>The loop \<open>while ((value.size() > 0) && (value.back() == '\n')) value.pop_back()\<close>.\<close>

function pop_back_newlines :: "string \<Rightarrow> string" where
  "pop_back_newlines v =
     (if v \<noteq> [] \<and> last v = CHR 0x0A then pop_back_newlines (butlast v) else v)"
  by pat_completeness auto
termination
  by (relation "measure length") auto

declare pop_back_newlines.simps [simp del]

definition pop_back_ampersand :: "string \<Rightarrow> string" where
  "pop_back_ampersand v = (if v \<noteq> [] \<and> last v = CHR ''&'' then butlast v else v)"

text \<open>The cleanup of a value before it is inserted.\<close>

definition cleanValue :: "string \<Rightarrow> string" where
  "cleanValue v =
     pop_back_ampersand (pop_back_newlines (String_replace v (CHR 0x0D) (CHR 0x0A)))"

text \<open>
  The state of the loop: the map \<open>templateDat\<close> and the strings \<open>key\<close> and \<open>value\<close>.
  \<open>line.at(0)\<close> throws on an empty line. A key that is already in the map keeps its
  first value.
\<close>

record TemplateState =
  templateDat :: "string \<rightharpoonup> string"
  key :: string
  "value" :: string

definition templateLine :: "TemplateState \<Rightarrow> string \<Rightarrow> error + TemplateState" where
  "templateLine st line =
     (if line = [] then Inl OutOfRange
      else if hd line = CHR ''#'' then
        Inr \<lparr>templateDat =
               (if templateDat st (key st) = None
                then (templateDat st)(key st \<mapsto> cleanValue (value st))
                else templateDat st),
             key = String_trim (String_trimLines line),
             value = []\<rparr>
      else Inr (st\<lparr>value := value st @ line\<rparr>))"

fun templateLoop :: "TemplateState \<Rightarrow> string list \<Rightarrow> error + TemplateState" where
  "templateLoop st [] = Inr st"
| "templateLoop st (line # rest) =
     (case templateLine st line of
        Inl e \<Rightarrow> Inl e
      | Inr st' \<Rightarrow> templateLoop st' rest)"

definition parseTemplateDat :: "string \<Rightarrow> error + (string \<rightharpoonup> string)" where
  "parseTemplateDat text =
     (case templateLoop \<lparr>templateDat = Map.empty, key = [], value = []\<rparr> (getlines text) of
        Inl e \<Rightarrow> Inl e
      | Inr st \<Rightarrow> Inr ((templateDat st)([] := None)))"

text \<open>
  The accessor \<open>getTemplateDatText\<close> asserts that the key is in the map;
  \<open>templateDatTextOf\<close> is the accessor on the map parsed from a text.
\<close>

definition getTemplateDatText :: "(string \<rightharpoonup> string) \<Rightarrow> string \<Rightarrow> error + string" where
  "getTemplateDatText tbl k = (case tbl k of None \<Rightarrow> Inl AssertionFailed | Some v \<Rightarrow> Inr v)"

definition templateDatTextOf :: "string \<Rightarrow> string \<Rightarrow> error + string" where
  "templateDatTextOf text k =
     (case parseTemplateDat text of Inl e \<Rightarrow> Inl e | Inr tbl \<Rightarrow> getTemplateDatText tbl k)"

text \<open>
  The blocks of a template text, for the statements about the parsed map: a key line
  starts with \<open>#\<close>, a text line is any other non-empty line, and a closed block of a
  list of lines is a key line with the text lines that follow it, up to and followed by
  the next key line; \<open>raw\<close> is the text of the block, its lines joined.
\<close>

definition isKeyLine :: "string \<Rightarrow> bool" where
  "isKeyLine l \<longleftrightarrow> l \<noteq> [] \<and> hd l = CHR ''#''"

definition isTextLine :: "string \<Rightarrow> bool" where
  "isTextLine l \<longleftrightarrow> l \<noteq> [] \<and> hd l \<noteq> CHR ''#''"

definition closedBlock :: "string list \<Rightarrow> string \<Rightarrow> string \<Rightarrow> bool" where
  "closedBlock ls keyLine raw \<longleftrightarrow>
     (\<exists>pre body rest. ls = pre @ keyLine # body @ rest \<and> isKeyLine keyLine \<and>
        (\<forall>l \<in> set body. isTextLine l) \<and> rest \<noteq> [] \<and> isKeyLine (hd rest) \<and>
        raw = concat body)"

text \<open>
  The invariant of the loop after the lines \<open>ls\<close>: the entries of the map (but for the
  empty key, which is erased at the end) come from closed blocks of \<open>ls\<close>, and \<open>key\<close>
  and \<open>value\<close> hold the block that is still open.
\<close>

definition openBlock :: "string list \<Rightarrow> string \<Rightarrow> string \<Rightarrow> bool" where
  "openBlock ls k raw \<longleftrightarrow>
     ((\<forall>l \<in> set ls. isTextLine l) \<and> k = [] \<and> raw = concat ls) \<or>
     (\<exists>pre keyLine body. ls = pre @ keyLine # body \<and> isKeyLine keyLine \<and>
        (\<forall>l \<in> set body. isTextLine l) \<and> k = String_trim (String_trimLines keyLine) \<and>
        raw = concat body)"

definition fromBlocks :: "string list \<Rightarrow> (string \<rightharpoonup> string) \<Rightarrow> bool" where
  "fromBlocks ls m \<longleftrightarrow>
     (\<forall>k v. m k = Some v \<and> k \<noteq> [] \<longrightarrow>
        (\<exists>keyLine raw. closedBlock ls keyLine raw \<and>
           k = String_trim (String_trimLines keyLine) \<and> v = cleanValue raw))"

subsection \<open>parseQuestionTxt\<close>

record CharacterQuestion =
  description :: string
  choiceA :: "string \<times> CharacterClassCategoryName"
  choiceB :: "string \<times> CharacterClassCategoryName"
  choiceC :: "string \<times> CharacterClassCategoryName"

datatype Mode = Description | A | B | C

text \<open>
  \<open>addQuestion\<close> derives the three categories (here in the order a, b, c; C++ leaves the
  order of the three calls open, and each of them can throw) and appends the question.
\<close>

definition addQuestion ::
  "CharacterQuestion list \<Rightarrow> string \<Rightarrow> string \<Rightarrow> string \<Rightarrow> string \<Rightarrow>
   error + CharacterQuestion list" where
  "addQuestion questionTxt d a b c =
     (case getCategory a of Inl e \<Rightarrow> Inl e | Inr ca \<Rightarrow>
      case getCategory b of Inl e \<Rightarrow> Inl e | Inr cb \<Rightarrow>
      case getCategory c of Inl e \<Rightarrow> Inl e | Inr cc \<Rightarrow>
        Inr (questionTxt @
          [\<lparr>description = d, choiceA = (a, ca), choiceB = (b, cb), choiceC = (c, cc)\<rparr>]))"

text \<open>\<open>std::isalpha\<close> and \<open>std::isdigit\<close> in the C locale.\<close>

definition isalpha :: "char \<Rightarrow> bool" where
  "isalpha ch = (let n = (of_char ch :: nat) in (65 \<le> n \<and> n \<le> 90) \<or> (97 \<le> n \<and> n \<le> 122))"

definition isdigit :: "char \<Rightarrow> bool" where
  "isdigit ch = (let n = (of_char ch :: nat) in 48 \<le> n \<and> n \<le> 57)"

record QuestionState =
  questionTxt :: "CharacterQuestion list"
  qdescription :: string
  qa :: string
  qb :: string
  qc :: string
  mode :: Mode

definition appendByMode :: "QuestionState \<Rightarrow> string \<Rightarrow> QuestionState" where
  "appendByMode st line =
     (case mode st of
        Description \<Rightarrow> st\<lparr>qdescription := qdescription st @ line\<rparr>
      | A \<Rightarrow> st\<lparr>qa := qa st @ line\<rparr>
      | B \<Rightarrow> st\<lparr>qb := qb st @ line\<rparr>
      | C \<Rightarrow> st\<lparr>qc := qc st @ line\<rparr>)"

definition questionLine :: "QuestionState \<Rightarrow> string \<Rightarrow> error + QuestionState" where
  "questionLine st line =
     (if line = [] then Inl OutOfRange
      else let ch = hd line in
        if isalpha ch then
          Inr (appendByMode
                (st\<lparr>mode := (if ch = CHR ''a'' then A else if ch = CHR ''b'' then B
                              else if ch = CHR ''c'' then C else mode st)\<rparr>)
                (line @ [CHR 0x0A]))
        else if isdigit ch then
          (if mode st \<noteq> Description then
             (case addQuestion (questionTxt st) (qdescription st) (qa st) (qb st) (qc st) of
                Inl e \<Rightarrow> Inl e
              | Inr qs \<Rightarrow>
                  Inr (appendByMode
                        \<lparr>questionTxt = qs, qdescription = [], qa = [], qb = [], qc = [],
                         mode = Description\<rparr>
                        (line @ [CHR 0x0A])))
           else Inr (appendByMode (st\<lparr>mode := Description\<rparr>) (line @ [CHR 0x0A])))
        else Inr (appendByMode st (line @ [CHR 0x0A])))"

fun questionLoop :: "QuestionState \<Rightarrow> string list \<Rightarrow> error + QuestionState" where
  "questionLoop st [] = Inr st"
| "questionLoop st (line # rest) =
     (case questionLine st line of
        Inl e \<Rightarrow> Inl e
      | Inr st' \<Rightarrow> questionLoop st' rest)"

definition parseQuestionTxt :: "string \<Rightarrow> error + CharacterQuestion list" where
  "parseQuestionTxt text =
     (case questionLoop
            \<lparr>questionTxt = [], qdescription = [], qa = [], qb = [], qc = [],
             mode = Description\<rparr> (getlines text) of
        Inl e \<Rightarrow> Inl e
      | Inr st \<Rightarrow> addQuestion (questionTxt st) (qdescription st) (qa st) (qb st) (qc st))"

subsection \<open>parseDungeonTxt\<close>

text \<open>
  \<open>replace_first s a r\<close> is \<open>s.replace(s.find(a), 1, r)\<close> guarded by
  \<open>s.find(a) != npos\<close>: the first occurrence of the character is replaced by a string.
\<close>

fun replace_first :: "string \<Rightarrow> char \<Rightarrow> string \<Rightarrow> string" where
  "replace_first [] a r = []"
| "replace_first (c # cs) a r = (if c = a then r @ cs else c # replace_first cs a r)"

record DungeonState =
  dungeonTxt :: "(string \<times> string) list"
  title :: string
  ddescription :: string

text \<open>
  On a \<open>#\<close> line the code calls \<open>description.back()\<close> without a test; on an empty
  description that is a read before the first character (undefined behaviour).
\<close>

definition dungeonLine :: "DungeonState \<Rightarrow> string \<Rightarrow> error + DungeonState" where
  "dungeonLine st line =
     (if line = [] then Inl OutOfRange
      else if hd line = CHR ''#'' then
        (if ddescription st = [] then Inl ReadPastEnd
         else
           let d = (if last (ddescription st) = CHR 0x0A then butlast (ddescription st)
                    else ddescription st)
           in Inr \<lparr>dungeonTxt = dungeonTxt st @ [(title st, d)], title = [],
                   ddescription = []\<rparr>)
      else if title st = [] then
        Inr (st\<lparr>title := replace_first line (CHR 0x0D) []\<rparr>)
      else
        Inr (st\<lparr>ddescription :=
               replace_first (ddescription st @ line) (CHR 0x0D) [CHR 0x0A]\<rparr>))"

fun dungeonLoop :: "DungeonState \<Rightarrow> string list \<Rightarrow> error + DungeonState" where
  "dungeonLoop st [] = Inr st"
| "dungeonLoop st (line # rest) =
     (case dungeonLine st line of
        Inl e \<Rightarrow> Inl e
      | Inr st' \<Rightarrow> dungeonLoop st' rest)"

definition parseDungeonTxt :: "string \<Rightarrow> error + (string \<times> string) list" where
  "parseDungeonTxt text =
     (case dungeonLoop \<lparr>dungeonTxt = [], title = [], ddescription = []\<rparr> (getlines text) of
        Inl e \<Rightarrow> Inl e
      | Inr st \<Rightarrow> Inr (dungeonTxt st))"

section \<open>parseNameChunks\<close>

text \<open>
  Modelled from the spec: \<open>Bytes::getLE16\<close> is declared in Utilities/Bytes.h, which is
  not among the sources; the spec calls it a 16-bit little-endian read. The reads of the
  C++ code go through raw pointers, so a read outside the buffer is undefined behaviour:
  \<open>ReadPastEnd\<close> marks it in the functions that read one record, and the loop over the
  records has no result there.
\<close>

definition getLE16 :: "8 word list \<Rightarrow> nat \<Rightarrow> error + 16 word" where
  "getLE16 buf off =
     (if off + 1 < length buf
      then Inr (or (ucast (buf ! off)) (push_bit 8 (ucast (buf ! (off + 1)))))
      else Inl ReadPastEnd)"

definition byteAt :: "8 word list \<Rightarrow> nat \<Rightarrow> error + 8 word" where
  "byteAt buf off = (if off < length buf then Inr (buf ! off) else Inl ReadPastEnd)"

text \<open>\<open>std::string(stringPtr)\<close>: the characters up to the first zero byte.\<close>

fun cstring :: "8 word list \<Rightarrow> error + string" where
  "cstring [] = Inl ReadPastEnd"
| "cstring (b # bs) =
     (if b = 0 then Inr []
      else case cstring bs of Inl e \<Rightarrow> Inl e | Inr s \<Rightarrow> Inr (char_of (unat b) # s))"

text \<open>
  The inner loop: \<open>n\<close> strings, one after the other, the first at position \<open>pos\<close> of
  the buffer (\<open>chunkPtr + stringOffset\<close>).
\<close>

fun readStrings :: "8 word list \<Rightarrow> nat \<Rightarrow> nat \<Rightarrow> error + string list" where
  "readStrings buf pos 0 = Inr []"
| "readStrings buf pos (Suc n) =
     (case cstring (drop pos buf) of
        Inl e \<Rightarrow> Inl e
      | Inr s \<Rightarrow>
          (case readStrings buf (pos + length s + 1) n of
             Inl e \<Rightarrow> Inl e
           | Inr ss \<Rightarrow> Inr (s # ss)))"

text \<open>
  One pass of the outer loop body at \<open>offset\<close>: the strings of the record and the
  cursor for the next record, \<open>offset + chunkLength\<close>.
\<close>

definition readChunk :: "8 word list \<Rightarrow> nat \<Rightarrow> error + (string list \<times> nat)" where
  "readChunk srcData offset =
     (case getLE16 srcData offset of
        Inl e \<Rightarrow> Inl e
      | Inr chunkLength \<Rightarrow>
          (case byteAt srcData (offset + 2) of
             Inl e \<Rightarrow> Inl e
           | Inr stringCount \<Rightarrow>
               (case readStrings srcData (offset + 3) (unat stringCount) of
                  Inl e \<Rightarrow> Inl e
                | Inr strings \<Rightarrow> Inr (strings, offset + unat chunkLength))))"

text \<open>
  The outer loop \<open>while (offset < srcData.size())\<close>. Nothing in the code makes the
  cursor advance, so the loop is a partial function. The code has no bounds check and no
  exit for a record that does not lie inside the buffer: a read outside the buffer is
  undefined behaviour, after which the program has no defined result. \<open>None\<close> is a run
  without a result: one that never leaves the loop, or one that reads outside the
  buffer. No error value is ever returned.
\<close>

partial_function (option) nameChunksLoop ::
  "8 word list \<Rightarrow> nat \<Rightarrow> string list list \<Rightarrow> (error + string list list) option" where
  "nameChunksLoop srcData offset nameChunks =
     (if offset < length srcData then
        (case readChunk srcData offset of
           Inl e \<Rightarrow> None
         | Inr (strings, next) \<Rightarrow> nameChunksLoop srcData next (nameChunks @ [strings]))
      else Some (Inr nameChunks))"

declare nameChunksLoop.simps [code]

definition parseNameChunks :: "8 word list \<Rightarrow> (error + string list list) option" where
  "parseNameChunks srcData = nameChunksLoop srcData 0 []"

text \<open>The cursor positions the loop visits on a buffer.\<close>

inductive cursorAt :: "8 word list \<Rightarrow> nat \<Rightarrow> bool" for srcData where
  start: "cursorAt srcData 0"
| advance: "cursorAt srcData offset \<Longrightarrow> offset < length srcData \<Longrightarrow>
     readChunk srcData offset = Inr (strings, next) \<Longrightarrow> cursorAt srcData next"

section \<open>parseSpellMakerDescriptions\<close>

text \<open>
  \<open>std::stoi\<close>: leading white space is skipped, then an optional sign, then decimal
  digits as far as they go; without a digit it throws \<open>std::invalid_argument\<close>, and a
  value that does not fit \<open>int\<close> throws \<open>std::out_of_range\<close>.
\<close>

definition isspace :: "char \<Rightarrow> bool" where
  "isspace ch = (let n = (of_char ch :: nat) in n = 32 \<or> (9 \<le> n \<and> n \<le> 13))"

definition digitsValue :: "string \<Rightarrow> int" where
  "digitsValue ds = foldl (\<lambda>acc d. 10 * acc + (int (of_char d) - 48)) 0 ds"

definition stoi :: "string \<Rightarrow> error + int" where
  "stoi str =
     (let s1 = dropWhile isspace str;
          neg = (s1 \<noteq> [] \<and> hd s1 = CHR ''-'');
          s2 = (if s1 \<noteq> [] \<and> (hd s1 = CHR ''-'' \<or> hd s1 = CHR ''+'') then tl s1 else s1);
          ds = takeWhile isdigit s2;
          v = (if neg then - digitsValue ds else digitsValue ds)
      in if ds = [] then Inl InvalidArgument
         else if v < - (2 ^ 31) \<or> 2 ^ 31 - 1 < v then Inl OutOfRange
         else Inr v)"

text \<open>
  The state of the loop: the array of 43 descriptions and the pending block
  (\<open>std::unique_ptr<State>\<close>, empty or an index with its text). A pending block is
  written to the array only when a later \<open>#\<close> line flushes it. A \<open>#\<close> line shorter than
  three characters leaves the loop (\<open>break\<close>); a text line without a pending block
  dereferences the null pointer.
\<close>

definition flushState :: "string list \<Rightarrow> (int \<times> string) option \<Rightarrow> error + string list" where
  "flushState spellMakerDescriptions state =
     (case state of
        None \<Rightarrow> Inr spellMakerDescriptions
      | Some (index, str) \<Rightarrow>
          if 0 \<le> index \<and> index < int (length spellMakerDescriptions)
          then Inr (spellMakerDescriptions[nat index := str])
          else Inl OutOfRange)"

fun spellMakerLoop ::
  "string list \<Rightarrow> (int \<times> string) option \<Rightarrow> string list \<Rightarrow> error + string list" where
  "spellMakerLoop descs state [] = Inr descs"
| "spellMakerLoop descs state (line # rest) =
     (if line = [] then spellMakerLoop descs state rest
      else if hd line = CHR ''#'' then
        (case flushState descs state of
           Inl e \<Rightarrow> Inl e
         | Inr descs' \<Rightarrow>
             if 3 \<le> length line then
               (case stoi (take 2 (drop 1 line)) of
                  Inl e \<Rightarrow> Inl e
                | Inr index \<Rightarrow> spellMakerLoop descs' (Some (index, [])) rest)
             else Inr descs')
      else
        (case state of
           None \<Rightarrow> Inl NullDereference
         | Some (index, str) \<Rightarrow> spellMakerLoop descs (Some (index, str @ line)) rest))"

definition parseSpellMakerDescriptions :: "string \<Rightarrow> error + string list" where
  "parseSpellMakerDescriptions text = spellMakerLoop (replicate 43 []) None (getlines text)"

section \<open>WorldMapTerrain::getFailSafeAt\<close>

text \<open>
  The constants \<open>WIDTH\<close>, \<open>HEIGHT\<close>, \<open>SEA\<close> and \<open>TEMPERATE1\<close> of \<open>WorldMapTerrain\<close> are
  declared in MiscAssets.h, which is not among the sources: they are parameters of the
  model. \<open>indices\<close> is the pixel array of \<open>WIDTH * HEIGHT\<close> bytes.
\<close>

record TerrainConstants =
  WIDTH :: int
  HEIGHT :: int
  SEA :: "8 word"
  TEMPERATE1 :: "8 word"

text \<open>
  The lambda \<open>getTerrainAt\<close>: the linear index moved 12 pixels left, brought back
  into the array by at most one addition or subtraction of the pixel count, then read
  with \<open>at\<close>.
\<close>

definition getTerrainAt :: "TerrainConstants \<Rightarrow> 8 word list \<Rightarrow> int \<Rightarrow> int \<Rightarrow> error + 8 word" where
  "getTerrainAt k indices x y =
     (let pixelCount = WIDTH k * HEIGHT k;
          i = x + (y * WIDTH k) - 12;
          index = (if i < 0 then i + pixelCount
                   else if pixelCount \<le> i then i - pixelCount else i)
      in at_int indices index)"

text \<open>
  The loop \<open>for (int dist = 1; dist < 200; dist++)\<close>, with \<open>dst\<close> for its counter:
  the four pixels of the array \<open>failSafePixels\<close> are all read, in the order below,
  above, right, left, before \<open>std::find_if\<close> looks for the first of them that is not
  sea.
\<close>

function failSafeLoop ::
  "TerrainConstants \<Rightarrow> 8 word list \<Rightarrow> int \<Rightarrow> int \<Rightarrow> int \<Rightarrow> error + 8 word" where
  "failSafeLoop k indices x y dst =
     (if dst < 200 then
        (case getTerrainAt k indices x (y + dst) of Inl e \<Rightarrow> Inl e | Inr pBelow \<Rightarrow>
         case getTerrainAt k indices x (y - dst) of Inl e \<Rightarrow> Inl e | Inr pAbove \<Rightarrow>
         case getTerrainAt k indices (x + dst) y of Inl e \<Rightarrow> Inl e | Inr pRight \<Rightarrow>
         case getTerrainAt k indices (x - dst) y of Inl e \<Rightarrow> Inl e | Inr pLeft \<Rightarrow>
           (case find (\<lambda>pixel. pixel \<noteq> SEA k) [pBelow, pAbove, pRight, pLeft] of
              Some pixel \<Rightarrow> Inr pixel
            | None \<Rightarrow> failSafeLoop k indices x y (dst + 1)))
      else Inr (TEMPERATE1 k))"
  by pat_completeness auto
termination
  by (relation "measure (\<lambda>(k, indices, x, y, dst). nat (200 - dst))") auto

declare failSafeLoop.simps [simp del]

definition getFailSafeAt :: "TerrainConstants \<Rightarrow> 8 word list \<Rightarrow> int \<Rightarrow> int \<Rightarrow> error + 8 word" where
  "getFailSafeAt k indices x y =
     (case getTerrainAt k indices x y of
        Inl e \<Rightarrow> Inl e
      | Inr terrainPixel \<Rightarrow>
          if terrainPixel \<noteq> SEA k then Inr terrainPixel
          else failSafeLoop k indices x y 1)"

text \<open>
  The fallback lookup in the words of the specification: the pixel at the index
  shifted 12 pixels left with wraparound modulo the pixel count; when it is sea, the
  first pixel that is not sea among those below, above, right and left at the radii
  1 to 199, in that order; the default temperate pixel when there is none.
\<close>

definition wrappedPixel :: "TerrainConstants \<Rightarrow> 8 word list \<Rightarrow> int \<times> int \<Rightarrow> 8 word" where
  "wrappedPixel k indices p =
     indices ! nat ((fst p + snd p * WIDTH k - 12) mod (WIDTH k * HEIGHT k))"

definition plusPattern :: "int \<Rightarrow> int \<Rightarrow> (int \<times> int) list" where
  "plusPattern x y =
     concat (map (\<lambda>dst. [(x, y + dst), (x, y - dst), (x + dst, y), (x - dst, y)])
       [1..199])"

definition failSafeSpec :: "TerrainConstants \<Rightarrow> 8 word list \<Rightarrow> int \<Rightarrow> int \<Rightarrow> 8 word" where
  "failSafeSpec k indices x y =
     (if wrappedPixel k indices (x, y) \<noteq> SEA k then wrappedPixel k indices (x, y)
      else case find (\<lambda>pixel. pixel \<noteq> SEA k) (map (wrappedPixel k indices) (plusPattern x y)) of
             Some pixel \<Rightarrow> pixel
           | None \<Rightarrow> TEMPERATE1 k)"

text \<open>
  A terrain image for the examples: 320 by 200 pixels with the sea index 248, all
  sea but for two pixels at radius 2 of the coordinate (100, 100), an index 249 above it
  and an index 253 below it; and the same image without the pixel below.
\<close>

definition exampleConstants :: TerrainConstants where
  "exampleConstants = \<lparr>WIDTH = 320, HEIGHT = 200, SEA = 248, TEMPERATE1 = 254\<rparr>"

definition exampleAboveBelow :: "8 word list" where
  "exampleAboveBelow = (replicate 64000 248)[31448 := 249, 32728 := 253]"

definition exampleAbove :: "8 word list" where
  "exampleAbove = (replicate 64000 248)[31448 := 249]"

section \<open>generateNpcName\<close>

text \<open>
  The discriminated union \<open>NameRule\<close>. Its strings are \<open>std::array<char, 4>\<close>: the
  constructors fill the array with zero characters and copy at most four characters
  of the argument into it (\<open>charArray4\<close>).
\<close>

datatype NameRule =
    RuleIndex int
  | RuleString string
  | RuleIndexChance int int
  | RuleIndexStringChance int string int

definition charArray4 :: "string \<Rightarrow> string" where
  "charArray4 str = take 4 (str @ [CHR 0x00, CHR 0x00, CHR 0x00, CHR 0x00])"

definition mkIndex :: "int \<Rightarrow> NameRule" where
  "mkIndex index = RuleIndex index"

definition mkString :: "string \<Rightarrow> NameRule" where
  "mkString str = RuleString (charArray4 str)"

definition mkIndexChance :: "int \<Rightarrow> int \<Rightarrow> NameRule" where
  "mkIndexChance index chance = RuleIndexChance index chance"

definition mkIndexStringChance :: "int \<Rightarrow> string \<Rightarrow> int \<Rightarrow> NameRule" where
  "mkIndexStringChance index str chance = RuleIndexStringChance index (charArray4 str) chance"

text \<open>
  \<open>std::string(rule.str.data())\<close> reads the array as a C string, up to its first
  zero character; an array without one makes the read run past the array.
\<close>

definition arrayString :: "string \<Rightarrow> error + string" where
  "arrayString arr =
     (if CHR 0x00 \<in> set arr then Inr (takeWhile (\<lambda>c. c \<noteq> CHR 0x00) arr)
      else Inl ReadPastEnd)"

text \<open>The table \<open>NameRules\<close>: two rule lists (male, female) for each of the 24 races.\<close>

definition NameRules :: "NameRule list list" where
  "NameRules =
     [[mkIndex 0, mkIndex 1, mkString '' '', mkIndex 4, mkIndex 5],
      [mkIndex 2, mkIndex 3, mkString '' '', mkIndex 4, mkIndex 5],
      [mkIndex 6, mkIndex 7, mkIndex 8, mkIndexChance 9 75],
      [mkIndex 6, mkIndex 7, mkIndex 8, mkIndexChance 9 75, mkIndex 10],
      [mkIndex 11, mkIndex 12, mkString '' '', mkIndex 15, mkIndex 16, mkString ''sen''],
      [mkIndex 13, mkIndex 14, mkString '' '', mkIndex 15, mkIndex 16, mkString ''sen''],
      [mkIndex 17, mkIndex 18, mkString '' '', mkIndex 21, mkIndex 22],
      [mkIndex 19, mkIndex 20, mkString '' '', mkIndex 21, mkIndex 22],
      [mkIndex 23, mkIndex 24, mkString '' '', mkIndex 27, mkIndex 28],
      [mkIndex 25, mkIndex 26, mkString '' '', mkIndex 27, mkIndex 28],
      [mkIndex 29, mkIndex 30, mkString '' '', mkIndex 33, mkIndex 34],
      [mkIndex 31, mkIndex 32, mkString '' '', mkIndex 33, mkIndex 34],
      [mkIndex 35, mkIndex 36, mkString '' '', mkIndex 39, mkIndex 40],
      [mkIndex 37, mkIndex 38, mkString '' '', mkIndex 39, mkIndex 40],
      [mkIndex 41, mkIndex 42, mkString '' '', mkIndex 45, mkIndex 46],
      [mkIndex 43, mkIndex 44, mkString '' '', mkIndex 45, mkIndex 46]]
     @ replicate 18 [mkIndex 47, mkIndexChance 48 75, mkIndex 49]
     @ replicate 8 [mkIndex 50, mkIndexChance 51 75, mkIndex 52]
     @ replicate 2 [mkIndex 50, mkIndex 52, mkIndex 53]
     @ replicate 2 [mkIndexStringChance 54 '' '' 25, mkIndex 55, mkIndex 56, mkIndex 57]
     @ replicate 2 [mkIndex 55, mkIndex 56, mkIndex 57]"

text \<open>
  Modelled from the spec: \<open>ArenaRandom\<close> is declared in Math/Random.h, which is not
  among the sources; the spec gives its contract as \<open>next() -> unsigned integer\<close>, one
  value of an external deterministic sequence per call. The generator is the sequence of
  values it yields (\<open>draws\<close>) and the number of calls of \<open>next\<close> made so far (\<open>drawn\<close>).
\<close>

record ArenaRandom =
  draws :: "nat \<Rightarrow> nat"
  drawn :: nat

definition random_next :: "ArenaRandom \<Rightarrow> nat \<times> ArenaRandom" where
  "random_next random = (draws random (drawn random), random\<lparr>drawn := drawn random + 1\<rparr>)"

definition constantRandom :: "nat \<Rightarrow> ArenaRandom" where
  "constantRandom v = \<lparr>draws = (\<lambda>_. v), drawn = 0\<rparr>"

text \<open>
  \<open>chunkList.at(random.next() % static_cast<int>(chunkList.size()))\<close>: one draw; the
  remainder by the size of an empty chunk list is a division by zero.
\<close>

definition sampleChunk :: "string list \<Rightarrow> ArenaRandom \<Rightarrow> error + (string \<times> ArenaRandom)" where
  "sampleChunk chunkList random =
     (let (d, random') = random_next random
      in if chunkList = [] then Inl DivideByZero
         else Inr (chunkList ! (d mod length chunkList), random'))"

text \<open>
  One pass of the loop over the rules. For both chance-gated rules the chunk list is
  looked up first, then the threshold is drawn, and the chunk index is drawn only when
  the threshold test passes.
\<close>

fun evalRule ::
  "string list list \<Rightarrow> NameRule \<Rightarrow> string \<times> ArenaRandom \<Rightarrow> error + (string \<times> ArenaRandom)" where
  "evalRule nameChunks (RuleIndex index) (name, random) =
     (case at_int nameChunks index of
        Inl e \<Rightarrow> Inl e
      | Inr chunkList \<Rightarrow>
          (case sampleChunk chunkList random of
             Inl e \<Rightarrow> Inl e
           | Inr (s, random') \<Rightarrow> Inr (name @ s, random')))"
| "evalRule nameChunks (RuleString str) (name, random) =
     (case arrayString str of
        Inl e \<Rightarrow> Inl e
      | Inr s \<Rightarrow> Inr (name @ s, random))"
| "evalRule nameChunks (RuleIndexChance index chance) (name, random) =
     (case at_int nameChunks index of
        Inl e \<Rightarrow> Inl e
      | Inr chunkList \<Rightarrow>
          (let (t, random') = random_next random
           in if int (t mod 100) \<le> chance then
                (case sampleChunk chunkList random' of
                   Inl e \<Rightarrow> Inl e
                 | Inr (s, random'') \<Rightarrow> Inr (name @ s, random''))
              else Inr (name, random')))"
| "evalRule nameChunks (RuleIndexStringChance index str chance) (name, random) =
     (case at_int nameChunks index of
        Inl e \<Rightarrow> Inl e
      | Inr chunkList \<Rightarrow>
          (let (t, random') = random_next random
           in if int (t mod 100) \<le> chance then
                (case sampleChunk chunkList random' of
                   Inl e \<Rightarrow> Inl e
                 | Inr (s, random'') \<Rightarrow>
                     (case arrayString str of
                        Inl e \<Rightarrow> Inl e
                      | Inr l \<Rightarrow> Inr (name @ s @ l, random'')))
              else Inr (name, random')))"

fun evalRules ::
  "string list list \<Rightarrow> NameRule list \<Rightarrow> string \<times> ArenaRandom \<Rightarrow> error + (string \<times> ArenaRandom)" where
  "evalRules nameChunks [] st = Inr st"
| "evalRules nameChunks (rule # rules) st =
     (case evalRule nameChunks rule st of
        Inl e \<Rightarrow> Inl e
      | Inr st' \<Rightarrow> evalRules nameChunks rules st')"

definition generateNpcName ::
  "string list list \<Rightarrow> int \<Rightarrow> bool \<Rightarrow> ArenaRandom \<Rightarrow> error + (string \<times> ArenaRandom)" where
  "generateNpcName nameChunks raceID isMale random =
     (case at_int NameRules ((raceID * 2) + (if isMale then 0 else 1)) of
        Inl e \<Rightarrow> Inl e
      | Inr chunkRules \<Rightarrow> evalRules nameChunks chunkRules ([], random))"

text \<open>
  The counts of the specification: the plain references and the chance-gated rules of
  a rule list.
\<close>

fun isPlain :: "NameRule \<Rightarrow> bool" where
  "isPlain (RuleIndex index) = True"
| "isPlain rule = False"

fun isGated :: "NameRule \<Rightarrow> bool" where
  "isGated (RuleIndexChance index chance) = True"
| "isGated (RuleIndexStringChance index str chance) = True"
| "isGated rule = False"

definition plainCount :: "NameRule list \<Rightarrow> nat" where
  "plainCount rules = length (filter isPlain rules)"

definition gatedCount :: "NameRule list \<Rightarrow> nat" where
  "gatedCount rules = length (filter isGated rules)"

text \<open>
  The number of chance-gated rules of a rule list whose threshold test passes, when the
  list is evaluated from the draw at position \<open>pos\<close> of the sequence \<open>ds\<close>: a plain
  reference takes one draw, a gated rule one draw for the threshold and one more for the
  chunk index when the threshold draw modulo 100 is at most its chance.
\<close>

fun passedCount :: "NameRule list \<Rightarrow> (nat \<Rightarrow> nat) \<Rightarrow> nat \<Rightarrow> nat" where
  "passedCount [] ds pos = 0"
| "passedCount (RuleIndex index # rules) ds pos = passedCount rules ds (pos + 1)"
| "passedCount (RuleString str # rules) ds pos = passedCount rules ds pos"
| "passedCount (RuleIndexChance index chance # rules) ds pos =
     (if int (ds pos mod 100) \<le> chance then 1 + passedCount rules ds (pos + 2)
      else passedCount rules ds (pos + 1))"
| "passedCount (RuleIndexStringChance index str chance # rules) ds pos =
     (if int (ds pos mod 100) \<le> chance then 1 + passedCount rules ds (pos + 2)
      else passedCount rules ds (pos + 1))"

section \<open>Properties\<close>

subsection \<open>Allowed armors\<close>

text \<open>
  C7. The allowed-armor set of a class is determined by its coded armor value: code 0
  yields Leather, Chain and Plate, code 1 yields Leather and Chain, code 2 yields
  Leather, code 3 yields the empty set, and every other code raises the fatal
  runtime error of the format violation.
\<close>

theorem allowedArmors_by_code:
  assumes "i < length vals"
  shows "(vals ! i = 0 \<longrightarrow> allowedArmors vals i = Inr [Leather, Chain, Plate]) \<and>
         (vals ! i = 1 \<longrightarrow> allowedArmors vals i = Inr [Leather, Chain]) \<and>
         (vals ! i = 2 \<longrightarrow> allowedArmors vals i = Inr [Leather]) \<and>
         (vals ! i = 3 \<longrightarrow> allowedArmors vals i = Inr []) \<and>
         (vals ! i \<notin> {0, 1, 2, 3} \<longrightarrow>
            allowedArmors vals i = Inl (RuntimeError ''Bad allowed armors value''))"
  using assms by (auto simp: allowedArmors_def allowedArmorsOfValue_def at_nat_def)

theorem allowedArmors_by_code_witness:
  "allowedArmors [0, 1, 2, 3, 4] 0 = Inr [Leather, Chain, Plate] \<and>
   allowedArmors [0, 1, 2, 3, 4] 1 = Inr [Leather, Chain] \<and>
   allowedArmors [0, 1, 2, 3, 4] 2 = Inr [Leather] \<and>
   allowedArmors [0, 1, 2, 3, 4] 3 = Inr [] \<and>
   allowedArmors [0, 1, 2, 3, 4] 4 = Inl (RuntimeError ''Bad allowed armors value'')"
  using allowedArmors_by_code [of 0 "[0, 1, 2, 3, 4]"]
        allowedArmors_by_code [of 1 "[0, 1, 2, 3, 4]"]
        allowedArmors_by_code [of 2 "[0, 1, 2, 3, 4]"]
        allowedArmors_by_code [of 3 "[0, 1, 2, 3, 4]"]
        allowedArmors_by_code [of 4 "[0, 1, 2, 3, 4]"]
  by simp

subsection \<open>Lockpicking multiplier\<close>









subsection \<open>Category of a quiz choice without the marker\<close>

lemma find_first_None: "find_first pat s = None \<longleftrightarrow> \<not> (\<exists>u v. s = u @ pat @ v)"
proof (induction s)
  case Nil
  then show ?case by auto
next
  case (Cons c cs)
  show ?case
  proof (cases "take (length pat) (c # cs) = pat")
    case True
    then have "c # cs = [] @ pat @ drop (length pat) (c # cs)"
      by (metis append_Nil append_take_drop_id)
    then have "\<exists>u v. c # cs = u @ pat @ v" by blast
    with True show ?thesis by simp
  next
    case False
    have "(\<exists>u v. c # cs = u @ pat @ v) \<longleftrightarrow> (\<exists>u v. cs = u @ pat @ v)"
    proof
      assume "\<exists>u v. c # cs = u @ pat @ v"
      then obtain u v where uv: "c # cs = u @ pat @ v" by blast
      show "\<exists>u v. cs = u @ pat @ v"
      proof (cases u)
        case Nil
        with uv have "take (length pat) (c # cs) = pat" by simp
        with False show ?thesis by simp
      next
        case (Cons a u')
        with uv have "cs = u' @ pat @ v" by simp
        then show ?thesis by blast
      qed
    next
      assume "\<exists>u v. cs = u @ pat @ v"
      then obtain u v where "cs = u @ pat @ v" by blast
      then have "c # cs = (c # u) @ pat @ v" by simp
      then show "\<exists>u v. c # cs = u @ pat @ v" by blast
    qed
    with False Cons.IH show ?thesis by simp
  qed
qed

lemma npos_plus_2: "unat (npos + 2) = 1"
  by (simp add: npos_def)

text \<open>
  C10. For every choice string that does not contain \<open>(5\<close>, \<open>find\<close> returns \<open>npos\<close> and
  \<open>npos + 2\<close> wraps around to 1, so the character examined is the one at index 1: the
  missing marker is never reported as such, the choice is classified or rejected as a
  bad category on that character alone, and a choice shorter than two characters makes
  the access \<open>at(1)\<close> itself fail.
\<close>

theorem getCategory_without_marker:
  assumes "\<not> (\<exists>u v. choice = u @ ''(5'' @ v)"
  shows "getCategory choice =
     (if length choice < 2 then Inl OutOfRange
      else if choice ! 1 = CHR ''l'' then Inr Mage
      else if choice ! 1 = CHR ''c'' then Inr Thief
      else if choice ! 1 = CHR ''v'' then Inr Warrior
      else Inl (RuntimeError ''Bad QUESTION.TXT class category.''))"
proof -
  from assms have "find_first ''(5'' choice = None"
    by (simp only: find_first_None not_False_eq_True)
  then have "string_find choice ''(5'' + 2 = npos + 2"
    by (simp add: string_find_def)
  then show ?thesis
    by (simp add: getCategory_def string_at_def at_nat_def npos_plus_2 not_less)
qed

theorem getCategory_without_marker_witness:
  "getCategory ''a. fight'' = Inl (RuntimeError ''Bad QUESTION.TXT class category.'') \<and>
   getCategory ''vc'' = Inr Thief \<and> getCategory ''a'' = Inl OutOfRange"
proof -
  have h1: "\<not> (\<exists>u v. ''a. fight'' = u @ ''(5'' @ v)"
    unfolding find_first_None [symmetric] by simp
  have h2: "\<not> (\<exists>u v. ''vc'' = u @ ''(5'' @ v)"
    unfolding find_first_None [symmetric] by simp
  have h3: "\<not> (\<exists>u v. ''a'' = u @ ''(5'' @ v)"
    unfolding find_first_None [symmetric] by simp
  show ?thesis
    using getCategory_without_marker [OF h1] getCategory_without_marker [OF h2]
      getCategory_without_marker [OF h3]
    by simp
qed

subsection \<open>The name-chunk loop\<close>

lemma char_of_numeral_nat:
  "char_of (numeral n :: nat) = Char (bit (numeral n :: nat) 0) (bit (numeral n :: nat) 1)
     (bit (numeral n :: nat) 2) (bit (numeral n :: nat) 3) (bit (numeral n :: nat) 4)
     (bit (numeral n :: nat) 5) (bit (numeral n :: nat) 6) (bit (numeral n :: nat) 7)"
  by (simp only: char_of_def)

lemma readStrings_numeral:
  "readStrings buf pos (numeral n) = readStrings buf pos (Suc (pred_numeral n))"
  by (simp only: numeral_eq_Suc)

lemmas chunk_eval = readChunk_def getLE16_def byteAt_def readStrings_numeral
  char_of_numeral_nat bit_Suc_0_iff

lemma readChunk_example:
  "readChunk [10, 0, 2, 65, 98, 0, 99, 0, 0, 0] 0 = Inr ([''Ab'', ''c''], 10)"
  by (simp add: chunk_eval)

lemma readChunk_zero: "readChunk [0, 0, 0] 0 = Inr ([], 0)"
  by (simp add: chunk_eval)

lemma readChunk_next:
  assumes "readChunk srcData offset = Inr (strings, next)"
  shows "\<exists>chunkLength. getLE16 srcData offset = Inr chunkLength \<and>
           next = offset + unat chunkLength"
  using assms by (auto simp: readChunk_def split: sum.splits)

lemma nameChunksLoop_step:
  assumes "offset < length srcData" and "readChunk srcData offset = Inr (strings, next)"
  shows "nameChunksLoop srcData offset acc = nameChunksLoop srcData next (acc @ [strings])"
  using assms by (subst nameChunksLoop.simps) simp

lemma nameChunksLoop_stop:
  assumes "\<not> offset < length srcData"
  shows "nameChunksLoop srcData offset acc = Some (Inr acc)"
  using assms by (subst nameChunksLoop.simps) simp

lemma nameChunksLoop_undefined:
  assumes "offset < length srcData" and "readChunk srcData offset = Inl e"
  shows "nameChunksLoop srcData offset acc = None"
  using assms by (subst nameChunksLoop.simps) simp

text \<open>
  A record that declares the length 0 leaves the cursor where it is: on the buffer of
  three zero bytes no run of the loop returns.
\<close>

lemma zero_length_never_returns:
  "nameChunksLoop buf off acc = Some r \<Longrightarrow> \<not> (buf = [0, 0, 0] \<and> off = 0)"
proof (rule nameChunksLoop.raw_induct [where P = "\<lambda>buf off acc r. \<not> (buf = [0, 0, 0] \<and> off = 0)"])
  fix loop :: "8 word list \<Rightarrow> nat \<Rightarrow> string list list \<Rightarrow> (error + string list list) option"
    and srcData offset nameChunks r
  assume IH: "\<And>srcData offset nameChunks r. loop srcData offset nameChunks = Some r \<Longrightarrow>
      \<not> (srcData = [0, 0, 0] \<and> offset = 0)"
    and step: "(if offset < length srcData
      then case readChunk srcData offset of Inl e \<Rightarrow> None
           | Inr (strings, next) \<Rightarrow> loop srcData next (nameChunks @ [strings])
      else Some (Inr nameChunks)) = Some r"
  show "\<not> (srcData = [0, 0, 0] \<and> offset = 0)"
  proof
    assume eq: "srcData = [0, 0, 0] \<and> offset = 0"
    with step have "loop [0, 0, 0] 0 (nameChunks @ [[]]) = Some r"
      by (simp add: readChunk_zero)
    from IH [OF this] show False by simp
  qed
qed

text \<open>
  C3, as stated: for every input byte buffer the decoding loop terminates. It does not
  on the buffer of three zero bytes, a record header with length 0 and no strings: the
  record is read inside the buffer, the cursor for the next record is 0 again, each pass
  appends one more empty chunk list, and the loop never reaches the end of the buffer.
\<close>

theorem parseNameChunks_zero_length_diverges:
  "readChunk [0, 0, 0] 0 = Inr ([], 0) \<and> parseNameChunks [0, 0, 0] = None"
proof (cases "parseNameChunks [0, 0, 0]")
  case None
  then show ?thesis by (simp add: readChunk_zero)
next
  case (Some r)
  then have False
    using zero_length_never_returns [of "[0, 0, 0]" 0 "[]" r] by (simp add: parseNameChunks_def)
  then show ?thesis ..
qed

lemma loop_terminates_aux:
  assumes H: "\<forall>off. cursorAt buf off \<and> off < length buf \<longrightarrow>
      (\<exists>strings next. readChunk buf off = Inr (strings, next) \<and> off < next)"
  shows "cursorAt buf off \<Longrightarrow>
    \<exists>nameChunks final. nameChunksLoop buf off acc = Some (Inr nameChunks) \<and>
       cursorAt buf final \<and> length buf \<le> final"
proof (induction "length buf - off" arbitrary: off acc rule: less_induct)
  case less
  show ?case
  proof (cases "off < length buf")
    case False
    with less.prems show ?thesis by (auto simp: nameChunksLoop_stop)
  next
    case inb: True
    with H less.prems obtain strings "next" where
      rc: "readChunk buf off = Inr (strings, next)" and adv: "off < next" by blast
    from adv inb have lt: "length buf - next < length buf - off" by simp
    have "cursorAt buf next" using less.prems inb rc by (rule cursorAt.advance)
    from less.hyps [OF lt this]
    obtain nameChunks final where
      "nameChunksLoop buf next (acc @ [strings]) = Some (Inr nameChunks)"
      "cursorAt buf final" "length buf \<le> final" by blast
    with inb rc show ?thesis by (auto simp: nameChunksLoop_step)
  qed
qed

text \<open>
  C3, amended: for every input byte buffer in which every record that the cursor
  reaches is read inside the buffer (its header, its count and its strings, each ended
  by a zero byte) and declares a length of at least 1, the decoding loop terminates
  with the table: from offset 0 it advances the cursor by each header's declared length
  and stops once the cursor reaches or passes the end of the buffer.
\<close>

theorem parseNameChunks_terminates:
  assumes "\<forall>off. cursorAt srcData off \<and> off < length srcData \<longrightarrow>
      (\<exists>strings next. readChunk srcData off = Inr (strings, next) \<and> off < next)"
  shows "\<exists>nameChunks final. parseNameChunks srcData = Some (Inr nameChunks) \<and>
     cursorAt srcData final \<and> length srcData \<le> final"
  unfolding parseNameChunks_def
  using assms cursorAt.start by (rule loop_terminates_aux)

lemma cursorAt_example:
  "cursorAt [10, 0, 2, 65, 98, 0, 99, 0, 0, 0] off \<Longrightarrow> off = 0 \<or> off = 10"
proof (induction rule: cursorAt.induct)
  case start
  then show ?case by simp
next
  case (advance offset strings "next")
  then have "offset = 0" by simp
  with advance.hyps(3) show ?case by (simp add: readChunk_example)
qed

theorem parseNameChunks_terminates_witness:
  "parseNameChunks [10, 0, 2, 65, 98, 0, 99, 0, 0, 0] = Some (Inr [[''Ab'', ''c'']])"
proof -
  have h: "\<forall>off. cursorAt [10, 0, 2, 65, 98, 0, 99, 0, 0, 0] off \<and>
          off < length [10, 0, 2, 65, 98, 0, 99, 0, 0, 0 :: 8 word] \<longrightarrow>
          (\<exists>strings next. readChunk [10, 0, 2, 65, 98, 0, 99, 0, 0, 0] off =
             Inr (strings, next) \<and> off < next)"
  proof (intro allI impI)
    fix off
    assume a: "cursorAt [10, 0, 2, 65, 98, 0, 99, 0, 0, 0] off \<and>
          off < length [10, 0, 2, 65, 98, 0, 99, 0, 0, 0 :: 8 word]"
    with cursorAt_example [of off] have "off = 0" by simp
    then show "\<exists>strings next. readChunk [10, 0, 2, 65, 98, 0, 99, 0, 0, 0] off =
             Inr (strings, next) \<and> off < next"
      by (simp add: readChunk_example)
  qed
  from parseNameChunks_terminates [OF h]
  obtain nameChunks where "parseNameChunks [10, 0, 2, 65, 98, 0, 99, 0, 0, 0] =
      Some (Inr nameChunks)" by blast
  moreover have "parseNameChunks [10, 0, 2, 65, 98, 0, 99, 0, 0, 0] =
      nameChunksLoop [10, 0, 2, 65, 98, 0, 99, 0, 0, 0] 10 [[''Ab'', ''c'']]"
    by (simp add: parseNameChunks_def nameChunksLoop_step [OF _ readChunk_example])
  ultimately show ?thesis by (simp add: nameChunksLoop_stop)
qed

text \<open>
  C5. When the loop reads a record whose header declares the length \<open>L\<close>, the cursor for
  the next record is \<open>L\<close> bytes after the start of the record, whatever the strings
  that were read, and the loop goes on from there; in a buffer of 10 bytes that starts
  with the header (length 10, count 2) the cursor advances to offset 10.
\<close>

theorem next_cursor_is_declared_length:
  "(readChunk srcData offset = Inr (strings, next) \<longrightarrow>
      (\<exists>chunkLength. getLE16 srcData offset = Inr chunkLength \<and>
         next = offset + unat chunkLength)) \<and>
   (offset < length srcData \<and> readChunk srcData offset = Inr (strings, next) \<longrightarrow>
      nameChunksLoop srcData offset acc = nameChunksLoop srcData next (acc @ [strings])) \<and>
   (length srcData = 10 \<and> take 3 srcData = [10, 0, 2] \<and>
    readChunk srcData 0 = Inr (strings, next) \<longrightarrow> next = 10)"
proof (intro conjI impI)
  assume "readChunk srcData offset = Inr (strings, next)"
  then show "\<exists>chunkLength. getLE16 srcData offset = Inr chunkLength \<and>
         next = offset + unat chunkLength"
    by (rule readChunk_next)
next
  assume "offset < length srcData \<and> readChunk srcData offset = Inr (strings, next)"
  then show "nameChunksLoop srcData offset acc = nameChunksLoop srcData next (acc @ [strings])"
    by (simp add: nameChunksLoop_step)
next
  assume a: "length srcData = 10 \<and> take 3 srcData = [10, 0, 2] \<and>
    readChunk srcData 0 = Inr (strings, next)"
  then obtain L where L: "getLE16 srcData 0 = Inr L" "next = 0 + unat L"
    using readChunk_next by blast
  from a have "srcData ! 0 = 10 \<and> srcData ! 1 = 0"
    by (metis nth_take nth_Cons_0 nth_Cons_Suc One_nat_def zero_less_numeral
        one_less_numeral_iff semiring_norm(77))
  with a L show "next = 10" by (auto simp: getLE16_def)
qed

theorem next_cursor_is_declared_length_witness:
  "readChunk [10, 0, 2, 65, 98, 0, 99, 0, 0, 0] 0 = Inr ([''Ab'', ''c''], 10) \<and>
   getLE16 [10, 0, 2, 65, 98, 0, 99, 0, 0, 0] 0 = Inr 10 \<and>
   nameChunksLoop [10, 0, 2, 65, 98, 0, 99, 0, 0, 0] 0 [] = Some (Inr [[''Ab'', ''c'']])"
  using next_cursor_is_declared_length
    [of "[10, 0, 2, 65, 98, 0, 99, 0, 0, 0]" 0 "[''Ab'', ''c'']" 10 "[]"]
  by (simp add: readChunk_example nameChunksLoop_stop getLE16_def)

subsection \<open>The terrain fallback\<close>

lemma getTerrainAt_wrapped:
  assumes len: "length indices = nat (WIDTH k * HEIGHT k)"
    and lo: "- (WIDTH k * HEIGHT k) \<le> x + y * WIDTH k - 12"
    and hi: "x + y * WIDTH k - 12 < 2 * (WIDTH k * HEIGHT k)"
  shows "getTerrainAt k indices x y = Inr (wrappedPixel k indices (x, y))"
proof -
  define P where "P = WIDTH k * HEIGHT k"
  define i where "i = x + y * WIDTH k - 12"
  from lo hi have P: "0 < P" unfolding P_def by linarith
  from lo hi have b: "- P \<le> i" "i < 2 * P" unfolding P_def i_def by simp_all
  consider "i < 0" | "0 \<le> i \<and> i < P" | "P \<le> i" by linarith
  then have "(if i < 0 then i + P else if P \<le> i then i - P else i) = i mod P \<and>
             0 \<le> i mod P \<and> i mod P < P"
  proof cases
    case 1
    with b have "0 \<le> i + P" "i + P < P" by simp_all
    then have "(i + P) mod P = i + P" by (rule mod_pos_pos_trivial)
    then have "i mod P = i + P" by (metis mod_add_self2)
    with 1 P b show ?thesis by simp
  next
    case 2
    then have "i mod P = i" by (intro mod_pos_pos_trivial) simp_all
    with 2 show ?thesis by simp
  next
    case 3
    with b have "0 \<le> i - P" "i - P < P" by simp_all
    then have "(i - P) mod P = i - P" by (rule mod_pos_pos_trivial)
    then have "i mod P = i - P" by (metis minus_mod_self2)
    with 3 P b show ?thesis by simp
  qed
  then show ?thesis
    using len P
    by (simp add: getTerrainAt_def wrappedPixel_def at_int_def Let_def P_def [symmetric]
        i_def [symmetric])
qed

lemma probes_in_range:
  assumes W: "12 \<le> WIDTH k" and H: "200 \<le> HEIGHT k"
    and x: "0 \<le> x" "x < WIDTH k" and y: "0 \<le> y" "y < HEIGHT k"
    and d: "0 \<le> d" "d \<le> 199"
  shows "- (WIDTH k * HEIGHT k) \<le> x + (y + d) * WIDTH k - 12 \<and>
         x + (y + d) * WIDTH k - 12 < 2 * (WIDTH k * HEIGHT k)"
    and "- (WIDTH k * HEIGHT k) \<le> x + (y - d) * WIDTH k - 12 \<and>
         x + (y - d) * WIDTH k - 12 < 2 * (WIDTH k * HEIGHT k)"
    and "- (WIDTH k * HEIGHT k) \<le> (x + d) + y * WIDTH k - 12 \<and>
         (x + d) + y * WIDTH k - 12 < 2 * (WIDTH k * HEIGHT k)"
    and "- (WIDTH k * HEIGHT k) \<le> (x - d) + y * WIDTH k - 12 \<and>
         (x - d) + y * WIDTH k - 12 < 2 * (WIDTH k * HEIGHT k)"
proof -
  have yW0: "0 \<le> y * WIDTH k" using y W by simp
  have "y * WIDTH k \<le> (HEIGHT k - 1) * WIDTH k"
    using y W by (intro mult_right_mono) simp_all
  then have yW1: "y * WIDTH k \<le> WIDTH k * HEIGHT k - WIDTH k" by (simp add: algebra_simps)
  have dW0: "0 \<le> d * WIDTH k" using d W by simp
  have dW1: "d * WIDTH k \<le> 199 * WIDTH k"
    using d W by (intro mult_right_mono) simp_all
  have "200 * WIDTH k \<le> HEIGHT k * WIDTH k"
    using H W by (intro mult_right_mono) simp_all
  then have HW: "200 * WIDTH k \<le> WIDTH k * HEIGHT k" by (simp add: algebra_simps)
  have e1: "(y + d) * WIDTH k = y * WIDTH k + d * WIDTH k" by (simp add: algebra_simps)
  have e2: "(y - d) * WIDTH k = y * WIDTH k - d * WIDTH k" by (simp add: algebra_simps)
  show "- (WIDTH k * HEIGHT k) \<le> x + (y + d) * WIDTH k - 12 \<and>
         x + (y + d) * WIDTH k - 12 < 2 * (WIDTH k * HEIGHT k)"
    unfolding e1 using yW0 yW1 dW0 dW1 HW W x by linarith
  show "- (WIDTH k * HEIGHT k) \<le> x + (y - d) * WIDTH k - 12 \<and>
         x + (y - d) * WIDTH k - 12 < 2 * (WIDTH k * HEIGHT k)"
    unfolding e2 using yW0 yW1 dW0 dW1 HW W x by linarith
  show "- (WIDTH k * HEIGHT k) \<le> (x + d) + y * WIDTH k - 12 \<and>
         (x + d) + y * WIDTH k - 12 < 2 * (WIDTH k * HEIGHT k)"
    using yW0 yW1 HW W x d by linarith
  show "- (WIDTH k * HEIGHT k) \<le> (x - d) + y * WIDTH k - 12 \<and>
         (x - d) + y * WIDTH k - 12 < 2 * (WIDTH k * HEIGHT k)"
    using yW0 yW1 HW W x d by linarith
qed

lemma failSafeLoop_spec:
  assumes len: "length indices = nat (WIDTH k * HEIGHT k)"
    and W: "12 \<le> WIDTH k" and H: "200 \<le> HEIGHT k"
    and x: "0 \<le> x" "x < WIDTH k" and y: "0 \<le> y" "y < HEIGHT k"
  shows "1 \<le> d \<Longrightarrow> failSafeLoop k indices x y d =
     Inr (case find (\<lambda>pixel. pixel \<noteq> SEA k)
            (map (wrappedPixel k indices)
               (concat (map (\<lambda>dst. [(x, y + dst), (x, y - dst), (x + dst, y), (x - dst, y)])
                  [d..199]))) of
            Some pixel \<Rightarrow> pixel
          | None \<Rightarrow> TEMPERATE1 k)"
proof (induction "nat (200 - d)" arbitrary: d)
  case 0
  then have "200 \<le> d" by simp
  then show ?case by (subst failSafeLoop.simps) simp
next
  case (Suc n)
  then have d: "1 \<le> d" "d \<le> 199" by simp_all
  then have d0: "0 \<le> d" by simp
  have n: "n = nat (200 - (d + 1))" using Suc.hyps(2) by simp
  have IH: "failSafeLoop k indices x y (d + 1) =
     Inr (case find (\<lambda>pixel. pixel \<noteq> SEA k)
            (map (wrappedPixel k indices)
               (concat (map (\<lambda>dst. [(x, y + dst), (x, y - dst), (x + dst, y), (x - dst, y)])
                  [d + 1..199]))) of
            Some pixel \<Rightarrow> pixel
          | None \<Rightarrow> TEMPERATE1 k)"
    using Suc.hyps(1) [OF n] d by simp
  note pr = probes_in_range [OF W H x y d0 d(2)]
  have r1: "getTerrainAt k indices x (y + d) = Inr (wrappedPixel k indices (x, y + d))"
    using pr(1) by (intro getTerrainAt_wrapped [OF len]) simp_all
  have r2: "getTerrainAt k indices x (y - d) = Inr (wrappedPixel k indices (x, y - d))"
    using pr(2) by (intro getTerrainAt_wrapped [OF len]) simp_all
  have r3: "getTerrainAt k indices (x + d) y = Inr (wrappedPixel k indices (x + d, y))"
    using pr(3) by (intro getTerrainAt_wrapped [OF len]) simp_all
  have r4: "getTerrainAt k indices (x - d) y = Inr (wrappedPixel k indices (x - d, y))"
    using pr(4) by (intro getTerrainAt_wrapped [OF len]) simp_all
  have up: "[d..199] = d # [d + 1..199]" using d by (simp add: upto.simps [of d 199])
  show ?case
    using d by (subst failSafeLoop.simps) (simp add: r1 r2 r3 r4 IH up)
qed

lemma getFailSafeAt_failSafeSpec:
  assumes len: "length indices = nat (WIDTH k * HEIGHT k)"
    and W: "12 \<le> WIDTH k" and H: "200 \<le> HEIGHT k"
    and x: "0 \<le> x" "x < WIDTH k" and y: "0 \<le> y" "y < HEIGHT k"
  shows "getFailSafeAt k indices x y = Inr (failSafeSpec k indices x y)"
proof -
  have "getTerrainAt k indices x y = Inr (wrappedPixel k indices (x, y))"
    using probes_in_range(1) [OF W H x y, of 0] by (intro getTerrainAt_wrapped [OF len]) simp_all
  then show ?thesis
    using failSafeLoop_spec [OF len W H x y, of 1]
    by (simp add: getFailSafeAt_def failSafeSpec_def plusPattern_def)
qed

lemma failSafeSpec_radius2_above:
  assumes "wrappedPixel k indices (x, y) = SEA k"
    and "wrappedPixel k indices (x, y + 1) = SEA k"
    and "wrappedPixel k indices (x, y - 1) = SEA k"
    and "wrappedPixel k indices (x + 1, y) = SEA k"
    and "wrappedPixel k indices (x - 1, y) = SEA k"
    and "wrappedPixel k indices (x, y + 2) = SEA k"
    and "wrappedPixel k indices (x, y - 2) \<noteq> SEA k"
  shows "failSafeSpec k indices x y = wrappedPixel k indices (x, y - 2)"
proof -
  have "[1..199] = 1 # 2 # [3..199]"
    by (simp add: upto.simps [of 1 199] upto.simps [of 2 199])
  with assms show ?thesis
    by (simp add: failSafeSpec_def plusPattern_def)
qed

text \<open>
  C6, amended: for every coordinate \<open>(x, y)\<close> of the terrain image (an image at least
  12 pixels wide and 200 pixels high, as the pixel array), \<open>getFailSafeAt\<close> returns the
  pixel at the index shifted 12 pixels left with wraparound if that pixel is not sea;
  otherwise the first pixel that is not sea among those below, above, right and left at
  each radius from 1 to 199, in that order; and the default temperate pixel if all of
  them are sea. In particular, when the requested pixel, its four neighbours at radius 1
  and the pixel below at radius 2 are sea and the pixel above at radius 2 is not (a
  mountain, say), it returns that pixel.
\<close>

theorem getFailSafeAt_in_image:
  assumes "length indices = nat (WIDTH k * HEIGHT k)"
    and "12 \<le> WIDTH k" and "200 \<le> HEIGHT k"
    and "0 \<le> x" and "x < WIDTH k" and "0 \<le> y" and "y < HEIGHT k"
  shows "getFailSafeAt k indices x y = Inr (failSafeSpec k indices x y) \<and>
     (wrappedPixel k indices (x, y) = SEA k \<and>
      wrappedPixel k indices (x, y + 1) = SEA k \<and>
      wrappedPixel k indices (x, y - 1) = SEA k \<and>
      wrappedPixel k indices (x + 1, y) = SEA k \<and>
      wrappedPixel k indices (x - 1, y) = SEA k \<and>
      wrappedPixel k indices (x, y + 2) = SEA k \<and>
      wrappedPixel k indices (x, y - 2) \<noteq> SEA k \<longrightarrow>
      getFailSafeAt k indices x y = Inr (wrappedPixel k indices (x, y - 2)))"
  using getFailSafeAt_failSafeSpec [OF assms] failSafeSpec_radius2_above [of k indices x y]
  by simp

lemmas terrain_eval = getTerrainAt_def at_int_def exampleConstants_def

theorem getFailSafeAt_in_image_witness:
  "getFailSafeAt exampleConstants exampleAbove 100 100 = Inr 249"
  using getFailSafeAt_in_image [of exampleAbove exampleConstants 100 100, THEN conjunct2]
  by (simp add: exampleConstants_def exampleAbove_def wrappedPixel_def)

text \<open>
  C6, as stated, fails in two ways. With the requested pixel and its four neighbours
  at radius 1 sea and the pixel above at radius 2 a mountain (249), the pixel below at
  radius 2 comes first: when it is not sea (253 here) it is the result. And a coordinate
  far outside the image is not brought back into the array by the single wraparound:
  \<open>at\<close> throws.
\<close>

theorem getFailSafeAt_counterexample:
  "getTerrainAt exampleConstants exampleAboveBelow 100 100 = Inr (SEA exampleConstants) \<and>
   getTerrainAt exampleConstants exampleAboveBelow 100 (100 + 1) = Inr (SEA exampleConstants) \<and>
   getTerrainAt exampleConstants exampleAboveBelow 100 (100 - 1) = Inr (SEA exampleConstants) \<and>
   getTerrainAt exampleConstants exampleAboveBelow (100 + 1) 100 = Inr (SEA exampleConstants) \<and>
   getTerrainAt exampleConstants exampleAboveBelow (100 - 1) 100 = Inr (SEA exampleConstants) \<and>
   getTerrainAt exampleConstants exampleAboveBelow 100 (100 - 2) = Inr 249 \<and>
   getFailSafeAt exampleConstants exampleAboveBelow 100 100 = Inr 253 \<and>
   getFailSafeAt exampleConstants exampleAboveBelow 200000 0 = Inl OutOfRange"
  by (simp add: getFailSafeAt_def terrain_eval exampleAboveBelow_def
      failSafeLoop.simps [of _ _ _ _ 1] failSafeLoop.simps [of _ _ _ _ 2])

subsection \<open>Draws of the name generator\<close>

lemma sampleChunk_Inr:
  assumes "sampleChunk chunkList r = Inr (s, r')"
  shows "chunkList \<noteq> [] \<and> s = chunkList ! (draws r (drawn r) mod length chunkList) \<and>
         draws r' = draws r \<and> drawn r' = drawn r + 1"
  using assms by (auto simp: sampleChunk_def random_next_def split: if_splits)

lemma evalRule_plain:
  assumes "evalRule nameChunks (RuleIndex index) (name, r) = Inr (name', r')"
  shows "draws r' = draws r \<and> drawn r' = drawn r + 1 \<and>
    (\<exists>chunkList. at_int nameChunks index = Inr chunkList \<and> chunkList \<noteq> [] \<and>
       name' = name @ chunkList ! (draws r (drawn r) mod length chunkList))"
  using assms by (auto split: sum.splits dest!: sampleChunk_Inr)

lemma evalRule_literal:
  assumes "evalRule nameChunks (RuleString str) (name, r) = Inr (name', r')"
  shows "r' = r \<and> (\<exists>s. arrayString str = Inr s \<and> name' = name @ s)"
  using assms by (auto split: sum.splits)

lemma evalRule_gated:
  assumes "evalRule nameChunks (RuleIndexChance index chance) (name, r) = Inr (name', r')"
  shows "draws r' = draws r \<and>
    (if int (draws r (drawn r) mod 100) \<le> chance
     then drawn r' = drawn r + 2 \<and>
       (\<exists>chunkList. at_int nameChunks index = Inr chunkList \<and> chunkList \<noteq> [] \<and>
          name' = name @ chunkList ! (draws r (drawn r + 1) mod length chunkList))
     else drawn r' = drawn r + 1 \<and> name' = name)"
  using assms
  by (auto simp: random_next_def split: sum.splits if_splits dest!: sampleChunk_Inr)

lemma evalRule_gated_literal:
  assumes "evalRule nameChunks (RuleIndexStringChance index str chance) (name, r) = Inr (name', r')"
  shows "draws r' = draws r \<and>
    (if int (draws r (drawn r) mod 100) \<le> chance
     then drawn r' = drawn r + 2 \<and>
       (\<exists>chunkList s. at_int nameChunks index = Inr chunkList \<and> chunkList \<noteq> [] \<and>
          arrayString str = Inr s \<and>
          name' = name @ chunkList ! (draws r (drawn r + 1) mod length chunkList) @ s)
     else drawn r' = drawn r + 1 \<and> name' = name)"
  using assms
  by (auto simp: random_next_def split: sum.splits if_splits dest!: sampleChunk_Inr)

lemma evalRules_draws:
  "evalRules nameChunks rules (name, r) = Inr (name', r') \<Longrightarrow>
   draws r' = draws r \<and>
   drawn r' = drawn r + plainCount rules + gatedCount rules + passedCount rules (draws r) (drawn r)"
proof (induction rules arbitrary: name r)
  case Nil
  then show ?case by (simp add: plainCount_def gatedCount_def)
next
  case (Cons rule rules)
  from Cons.prems obtain name1 r1 where
    step: "evalRule nameChunks rule (name, r) = Inr (name1, r1)" and
    rest: "evalRules nameChunks rules (name1, r1) = Inr (name', r')"
    by (auto split: sum.splits)
  note IH = Cons.IH [OF rest]
  show ?case
  proof (cases rule)
    case (RuleIndex index)
    with step evalRule_plain have "draws r1 = draws r \<and> drawn r1 = drawn r + 1" by blast
    with IH RuleIndex show ?thesis by (simp add: plainCount_def gatedCount_def)
  next
    case (RuleString str)
    with step evalRule_literal have "r1 = r" by blast
    with IH RuleString show ?thesis by (simp add: plainCount_def gatedCount_def)
  next
    case (RuleIndexChance index chance)
    with step evalRule_gated [of nameChunks index chance name r name1 r1]
    have "draws r1 = draws r \<and>
      (if int (draws r (drawn r) mod 100) \<le> chance then drawn r1 = drawn r + 2
       else drawn r1 = drawn r + 1)" by (simp split: if_splits)
    with IH RuleIndexChance show ?thesis
      by (simp add: plainCount_def gatedCount_def split: if_splits)
  next
    case (RuleIndexStringChance index str chance)
    with step evalRule_gated_literal [of nameChunks index str chance name r name1 r1]
    have "draws r1 = draws r \<and>
      (if int (draws r (drawn r) mod 100) \<le> chance then drawn r1 = drawn r + 2
       else drawn r1 = drawn r + 1)" by (simp split: if_splits)
    with IH RuleIndexStringChance show ?thesis
      by (simp add: plainCount_def gatedCount_def split: if_splits)
  qed
qed

lemma passedCount_le: "passedCount rules ds pos \<le> gatedCount rules"
  by (induction rules ds pos rule: passedCount.induct) (auto simp: gatedCount_def)

text \<open>
  C2, amended: for every rule list and every sequence of generator values, evaluating
  the rules consumes one draw per plain reference (for the chunk index) and one draw per
  chance-gated rule (for the threshold test), plus one more draw (for the chunk index)
  for each chance-gated rule whose threshold test passes, and no other; for a
  chance-gated rule the sampled chunk string is appended if and only if the threshold
  draw modulo 100 is less than or equal to the rule's chance value.
\<close>

theorem generateNpcName_draws:
  "(evalRules nameChunks rules (name, r) = Inr (name', r') \<longrightarrow>
      draws r' = draws r \<and>
      drawn r' = drawn r + plainCount rules + gatedCount rules +
                 passedCount rules (draws r) (drawn r) \<and>
      passedCount rules (draws r) (drawn r) \<le> gatedCount rules) \<and>
   (at_int NameRules ((raceID * 2) + (if isMale then 0 else 1)) = Inr rules \<and>
    generateNpcName nameChunks raceID isMale r = Inr (name', r') \<longrightarrow>
      drawn r' = drawn r + plainCount rules + gatedCount rules +
                 passedCount rules (draws r) (drawn r)) \<and>
   (evalRule nameChunks (RuleIndexChance index chance) (name, r) = Inr (name1, r1) \<longrightarrow>
      (if int (draws r (drawn r) mod 100) \<le> chance
       then drawn r1 = drawn r + 2 \<and>
         (\<exists>chunkList. at_int nameChunks index = Inr chunkList \<and> chunkList \<noteq> [] \<and>
            name1 = name @ chunkList ! (draws r (drawn r + 1) mod length chunkList))
       else drawn r1 = drawn r + 1 \<and> name1 = name)) \<and>
   (evalRule nameChunks (RuleIndexStringChance index str chance) (name, r) = Inr (name2, r2) \<longrightarrow>
      (if int (draws r (drawn r) mod 100) \<le> chance
       then drawn r2 = drawn r + 2 \<and>
         (\<exists>chunkList s. at_int nameChunks index = Inr chunkList \<and> chunkList \<noteq> [] \<and>
            arrayString str = Inr s \<and>
            name2 = name @ chunkList ! (draws r (drawn r + 1) mod length chunkList) @ s)
       else drawn r2 = drawn r + 1 \<and> name2 = name))"
proof (intro conjI impI)
  assume a: "evalRules nameChunks rules (name, r) = Inr (name', r')"
  from evalRules_draws [OF a] show "draws r' = draws r" by simp
  from evalRules_draws [OF a]
  show "drawn r' = drawn r + plainCount rules + gatedCount rules +
                 passedCount rules (draws r) (drawn r)" by simp
  show "passedCount rules (draws r) (drawn r) \<le> gatedCount rules" by (rule passedCount_le)
next
  assume "at_int NameRules ((raceID * 2) + (if isMale then 0 else 1)) = Inr rules \<and>
    generateNpcName nameChunks raceID isMale r = Inr (name', r')"
  then have "evalRules nameChunks rules ([], r) = Inr (name', r')"
    by (auto simp: generateNpcName_def)
  from evalRules_draws [OF this]
  show "drawn r' = drawn r + plainCount rules + gatedCount rules +
                 passedCount rules (draws r) (drawn r)" by simp
next
  assume "evalRule nameChunks (RuleIndexChance index chance) (name, r) = Inr (name1, r1)"
  from evalRule_gated [OF this, THEN conjunct2]
  show "if int (draws r (drawn r) mod 100) \<le> chance
       then drawn r1 = drawn r + 2 \<and>
         (\<exists>chunkList. at_int nameChunks index = Inr chunkList \<and> chunkList \<noteq> [] \<and>
            name1 = name @ chunkList ! (draws r (drawn r + 1) mod length chunkList))
       else drawn r1 = drawn r + 1 \<and> name1 = name" .
next
  assume "evalRule nameChunks (RuleIndexStringChance index str chance) (name, r) = Inr (name2, r2)"
  from evalRule_gated_literal [OF this, THEN conjunct2]
  show "if int (draws r (drawn r) mod 100) \<le> chance
       then drawn r2 = drawn r + 2 \<and>
         (\<exists>chunkList s. at_int nameChunks index = Inr chunkList \<and> chunkList \<noteq> [] \<and>
            arrayString str = Inr s \<and>
            name2 = name @ chunkList ! (draws r (drawn r + 1) mod length chunkList) @ s)
       else drawn r2 = drawn r + 1 \<and> name2 = name" .
qed

lemmas name_eval = generateNpcName_def NameRules_def at_int_def mkIndex_def mkString_def
  mkIndexChance_def mkIndexStringChance_def charArray4_def arrayString_def sampleChunk_def
  random_next_def constantRandom_def plainCount_def gatedCount_def

text \<open>
  C2, as stated, counts one chunk-index draw for every chance-gated rule. For race 1
  (male) the rules are three plain references and one rule gated at 75; with a
  generator that always yields 99 the threshold test fails, no chunk index is drawn, and
  the evaluation consumes 4 draws, not the 5 of the claim.
\<close>

theorem generateNpcName_draws_counterexample:
  "generateNpcName (replicate 58 [''x'']) 1 True (constantRandom 99) =
     Inr (''xxx'', (constantRandom 99)\<lparr>drawn := 4\<rparr>) \<and>
   at_int NameRules ((1 * 2) + (if True then 0 else 1)) =
     Inr [RuleIndex 6, RuleIndex 7, RuleIndex 8, RuleIndexChance 9 75] \<and>
   plainCount [RuleIndex 6, RuleIndex 7, RuleIndex 8, RuleIndexChance 9 75] +
     2 * gatedCount [RuleIndex 6, RuleIndex 7, RuleIndex 8, RuleIndexChance 9 75] = 5"
  by (simp add: name_eval)

theorem generateNpcName_draws_witness:
  "generateNpcName (replicate 58 [''x'']) 22 True (constantRandom 7) =
     Inr (''x xxx'', (constantRandom 7)\<lparr>drawn := 5\<rparr>) \<and>
   evalRule (replicate 58 [''x'']) (RuleIndexChance 9 75) (''xxx'', (constantRandom 99)\<lparr>drawn := 3\<rparr>) =
     Inr (''xxx'', (constantRandom 99)\<lparr>drawn := 4\<rparr>) \<and>
   evalRule (replicate 58 [''x'']) (RuleIndexChance 9 75) (''xxx'', (constantRandom 75)\<lparr>drawn := 3\<rparr>) =
     Inr (''xxxx'', (constantRandom 75)\<lparr>drawn := 5\<rparr>)"
  using generateNpcName_draws [of "replicate 58 [''x'']"
      "[RuleIndexStringChance 54 [CHR '' '', CHR 0x00, CHR 0x00, CHR 0x00] 25,
        RuleIndex 55, RuleIndex 56, RuleIndex 57]" "[]" "constantRandom 7"
      "''x xxx''" "(constantRandom 7)\<lparr>drawn := 5\<rparr>" 22 True
      54 25 "''x ''" "(constantRandom 7)\<lparr>drawn := 2\<rparr>"
      "[CHR '' '', CHR 0x00, CHR 0x00, CHR 0x00]" "''x ''" "(constantRandom 7)\<lparr>drawn := 2\<rparr>"]
    generateNpcName_draws [of "replicate 58 [''x'']" "[RuleIndexChance 9 75]" "''xxx''"
      "(constantRandom 99)\<lparr>drawn := 3\<rparr>" "''xxx''" "(constantRandom 99)\<lparr>drawn := 4\<rparr>"
      1 True 9 75 "''xxx''" "(constantRandom 99)\<lparr>drawn := 4\<rparr>"]
  by (simp add: name_eval nth_append)

subsection \<open>Indices of the spell-maker descriptions\<close>

lemmas spell_eval = parseSpellMakerDescriptions_def getlines_def flushState_def stoi_def
  isspace_def isdigit_def digitsValue_def

lemma flushState_length:
  "flushState descs state = Inr descs' \<Longrightarrow> length descs' = length descs"
  by (auto simp: flushState_def split: option.splits if_splits)

lemma spellMakerLoop_body:
  "\<forall>l \<in> set body. l = [] \<or> hd l \<noteq> CHR ''#'' \<Longrightarrow>
   \<exists>str'. spellMakerLoop descs (Some (index, str)) (body @ rest) =
          spellMakerLoop descs (Some (index, str')) rest"
proof (induction body arbitrary: str)
  case Nil
  then show ?case by auto
next
  case (Cons l body)
  then have IH: "\<And>str. \<exists>str'. spellMakerLoop descs (Some (index, str)) (body @ rest) =
          spellMakerLoop descs (Some (index, str')) rest" by simp
  from Cons.prems have "l = [] \<or> hd l \<noteq> CHR ''#''" by simp
  then show ?case
  proof
    assume "l = []"
    with IH [of str] show ?thesis by simp
  next
    assume h: "hd l \<noteq> CHR ''#''"
    show ?thesis
    proof (cases "l = []")
      case True
      with IH [of str] show ?thesis by simp
    next
      case False
      with h IH [of "str @ l"] show ?thesis by simp
    qed
  qed
qed

lemma spellMakerLoop_flush_error:
  assumes "nextLine \<noteq> []" and "hd nextLine = CHR ''#''"
    and "index < 0 \<or> int (length descs) \<le> index"
  shows "spellMakerLoop descs (Some (index, str)) (nextLine # rest) = Inl OutOfRange"
  using assms by (auto simp: flushState_def)

text \<open>
  C8, amended: during spell-maker description parsing, a \<open>#\<close>-delimited block whose
  index is outside the range 0..42 causes a fatal error (\<open>std::out_of_range\<close>) when the
  next \<open>#\<close> line flushes it, and a \<open>#\<close> line of three or more characters whose two
  characters after the \<open>#\<close> hold no number causes a fatal error
  (\<open>std::invalid_argument\<close>); a \<open>#\<close> line shorter than three characters carries no index
  and ends the parse without an error, after the pending block is flushed, the rest of
  the text being ignored.
\<close>

theorem spellMaker_index_errors:
  "(line \<noteq> [] \<and> hd line = CHR ''#'' \<and> 3 \<le> length line \<and>
    flushState descs state = Inr descs' \<and> length descs = 43 \<and>
    stoi (take 2 (drop 1 line)) = Inr index \<and> (index < 0 \<or> 42 < index) \<and>
    (\<forall>l \<in> set body. l = [] \<or> hd l \<noteq> CHR ''#'') \<and>
    nextLine \<noteq> [] \<and> hd nextLine = CHR ''#'' \<longrightarrow>
      spellMakerLoop descs state (line # body @ nextLine # rest) = Inl OutOfRange) \<and>
   (line \<noteq> [] \<and> hd line = CHR ''#'' \<and> 3 \<le> length line \<and>
    flushState descs state = Inr descs' \<and> stoi (take 2 (drop 1 line)) = Inl e \<longrightarrow>
      spellMakerLoop descs state (line # rest) = Inl e) \<and>
   (line \<noteq> [] \<and> hd line = CHR ''#'' \<and> length line < 3 \<and>
    flushState descs state = Inr descs' \<longrightarrow>
      spellMakerLoop descs state (line # rest) = Inr descs')"
proof (intro conjI impI)
  assume a: "line \<noteq> [] \<and> hd line = CHR ''#'' \<and> 3 \<le> length line \<and>
    flushState descs state = Inr descs' \<and> length descs = 43 \<and>
    stoi (take 2 (drop 1 line)) = Inr index \<and> (index < 0 \<or> 42 < index) \<and>
    (\<forall>l \<in> set body. l = [] \<or> hd l \<noteq> CHR ''#'') \<and>
    nextLine \<noteq> [] \<and> hd nextLine = CHR ''#''"
  then have len: "length descs' = 43" using flushState_length by fastforce
  from a have "spellMakerLoop descs state (line # body @ nextLine # rest) =
      spellMakerLoop descs' (Some (index, [])) (body @ nextLine # rest)" by simp
  also from a obtain str' where
    "spellMakerLoop descs' (Some (index, [])) (body @ nextLine # rest) =
     spellMakerLoop descs' (Some (index, str')) (nextLine # rest)"
    using spellMakerLoop_body [of body descs' index "[]" "nextLine # rest"] by blast
  also from a len have "spellMakerLoop descs' (Some (index, str')) (nextLine # rest) = Inl OutOfRange"
    by (intro spellMakerLoop_flush_error) auto
  finally show "spellMakerLoop descs state (line # body @ nextLine # rest) = Inl OutOfRange" .
next
  assume "line \<noteq> [] \<and> hd line = CHR ''#'' \<and> 3 \<le> length line \<and>
    flushState descs state = Inr descs' \<and> stoi (take 2 (drop 1 line)) = Inl e"
  then show "spellMakerLoop descs state (line # rest) = Inl e" by simp
next
  assume "line \<noteq> [] \<and> hd line = CHR ''#'' \<and> length line < 3 \<and>
    flushState descs state = Inr descs'"
  then show "spellMakerLoop descs state (line # rest) = Inr descs'" by simp
qed

theorem spellMaker_index_errors_witness:
  "parseSpellMakerDescriptions
     (''#99'' @ [CHR 0x0A] @ ''text'' @ [CHR 0x0A] @ ''#00'' @ [CHR 0x0A]) = Inl OutOfRange \<and>
   parseSpellMakerDescriptions (''#ab'' @ [CHR 0x0A]) = Inl InvalidArgument \<and>
   parseSpellMakerDescriptions
     (''#01'' @ [CHR 0x0D, CHR 0x0A] @ ''abc'' @ [CHR 0x0D, CHR 0x0A] @
      ''#'' @ [CHR 0x0D, CHR 0x0A] @ ''ignored'') =
     Inr ((replicate 43 [])[1 := ''abc'' @ [CHR 0x0D]])"
  using spellMaker_index_errors [of "''#99''" "replicate 43 []" None "replicate 43 []" 99
      "[''text'']" "''#00''" "[]" InvalidArgument]
    spellMaker_index_errors [of "''#ab''" "replicate 43 []" None "replicate 43 []" 0
      "[]" "''#''" "[]" InvalidArgument]
    spellMaker_index_errors [of "[CHR ''#'', CHR 0x0D]" "replicate 43 []"
      "Some (1, ''abc'' @ [CHR 0x0D])" "(replicate 43 [])[1 := ''abc'' @ [CHR 0x0D]]" 0
      "[]" "''#''" "[''ignored'']" InvalidArgument]
  by (simp add: spell_eval)

text \<open>
  C8, as stated: a \<open>#\<close> line that carries no index causes a fatal format error. On
  the text that consists of such a line alone the parse returns the array of empty
  descriptions, without an error.
\<close>

theorem spellMaker_missing_index_accepted:
  "parseSpellMakerDescriptions [CHR ''#'', CHR 0x0A] = Inr (replicate 43 [])"
  by (simp add: spell_eval)

subsection \<open>Values of the template table\<close>

lemmas template_eval = parseTemplateDat_def getlines_def templateLine_def cleanValue_def
  pop_back_ampersand_def String_replace_def String_trim_def String_trimLines_def
  pop_back_newlines.simps

text \<open>
  C4, as stated: no stored value ends with a newline or with \<open>&\<close>. The cleanup
  removes the trailing newlines first and then one \<open>&\<close>, once: a value whose \<open>&\<close>
  stands on a line of its own is stored with the newline before it, and of two final
  \<open>&\<close> one is left.
\<close>

theorem template_value_counterexample:
  "templateDatTextOf (''#A'' @ [CHR 0x0D, CHR 0x0A] @ ''abc'' @ [CHR 0x0D, CHR 0x0A] @
      ''&'' @ [CHR 0x0D, CHR 0x0A] @ ''#B'' @ [CHR 0x0D, CHR 0x0A] @
      ''xyz&&'' @ [CHR 0x0D, CHR 0x0A] @ ''#'' @ [CHR 0x0D, CHR 0x0A]) ''#A'' =
     Inr (''abc'' @ [CHR 0x0A]) \<and>
   templateDatTextOf (''#A'' @ [CHR 0x0D, CHR 0x0A] @ ''abc'' @ [CHR 0x0D, CHR 0x0A] @
      ''&'' @ [CHR 0x0D, CHR 0x0A] @ ''#B'' @ [CHR 0x0D, CHR 0x0A] @
      ''xyz&&'' @ [CHR 0x0D, CHR 0x0A] @ ''#'' @ [CHR 0x0D, CHR 0x0A]) ''#B'' =
     Inr ''xyz&''"
  by (simp add: template_eval templateDatTextOf_def getTemplateDatText_def)

lemma pop_back_newlines_last:
  "pop_back_newlines v = [] \<or> last (pop_back_newlines v) \<noteq> CHR 0x0A"
proof (induction v rule: pop_back_newlines.induct)
  case (1 v)
  then show ?case by (subst (1 2) pop_back_newlines.simps) auto
qed

lemma cleanValue_shape:
  "cleanValue raw = [] \<or>
   (last (cleanValue raw) \<noteq> CHR 0x0A \<and> last (cleanValue raw) \<noteq> CHR ''&'') \<or>
   pop_back_newlines (String_replace raw (CHR 0x0D) (CHR 0x0A)) = cleanValue raw @ ''&''"
proof -
  define w where "w = pop_back_newlines (String_replace raw (CHR 0x0D) (CHR 0x0A))"
  have w: "w = [] \<or> last w \<noteq> CHR 0x0A" unfolding w_def by (rule pop_back_newlines_last)
  have cv: "cleanValue raw = pop_back_ampersand w" by (simp add: cleanValue_def w_def)
  show ?thesis
  proof (cases "w \<noteq> [] \<and> last w = CHR ''&''")
    case True
    then have "w = butlast w @ ''&''" by (metis append_butlast_last_id)
    with True cv show ?thesis by (simp add: pop_back_ampersand_def w_def [symmetric])
  next
    case False
    with w cv show ?thesis by (auto simp: pop_back_ampersand_def)
  qed
qed

lemma closedBlock_snoc: "closedBlock ls keyLine raw \<Longrightarrow> closedBlock (ls @ [l]) keyLine raw"
proof -
  assume "closedBlock ls keyLine raw"
  then obtain pre body rest where b: "ls = pre @ keyLine # body @ rest" "isKeyLine keyLine"
    "\<forall>l \<in> set body. isTextLine l" "rest \<noteq> []" "isKeyLine (hd rest)" "raw = concat body"
    unfolding closedBlock_def by blast
  then have "ls @ [l] = pre @ keyLine # body @ (rest @ [l])" "rest @ [l] \<noteq> []"
    "isKeyLine (hd (rest @ [l]))" by simp_all
  with b show ?thesis unfolding closedBlock_def by blast
qed

lemma fromBlocks_snoc: "fromBlocks ls m \<Longrightarrow> fromBlocks (ls @ [l]) m"
  unfolding fromBlocks_def by (blast intro: closedBlock_snoc)

lemma openBlock_closes:
  assumes "openBlock ls k raw" and "k \<noteq> []" and "isKeyLine l"
  shows "\<exists>keyLine. closedBlock (ls @ [l]) keyLine raw \<and> k = String_trim (String_trimLines keyLine)"
proof -
  from assms(1,2) obtain pre keyLine body where b: "ls = pre @ keyLine # body"
    "isKeyLine keyLine" "\<forall>l \<in> set body. isTextLine l"
    "k = String_trim (String_trimLines keyLine)" "raw = concat body"
    unfolding openBlock_def by blast
  then have "ls @ [l] = pre @ keyLine # body @ [l]" by simp
  with b assms(3) have "closedBlock (ls @ [l]) keyLine raw"
    unfolding closedBlock_def by (intro exI [of _ pre] exI [of _ body] exI [of _ "[l]"]) simp
  with b show ?thesis by blast
qed

lemma templateLine_inv:
  assumes step: "templateLine st line = Inr st'"
    and fb: "fromBlocks ls (templateDat st)"
    and ob: "openBlock ls (key st) (value st)"
  shows "fromBlocks (ls @ [line]) (templateDat st') \<and> openBlock (ls @ [line]) (key st') (value st')"
proof (cases "isKeyLine line")
  case True
  then have ne: "line \<noteq> []" and hd: "hd line = CHR ''#''" by (simp_all add: isKeyLine_def)
  from step ne hd have st': "st' = \<lparr>templateDat =
               (if templateDat st (key st) = None
                then (templateDat st)(key st \<mapsto> cleanValue (value st))
                else templateDat st),
             key = String_trim (String_trimLines line), value = []\<rparr>"
    by (simp add: templateLine_def)
  have old: "fromBlocks (ls @ [line]) (templateDat st)" using fb by (rule fromBlocks_snoc)
  have "fromBlocks (ls @ [line]) (templateDat st')"
  proof (cases "templateDat st (key st) = None \<and> key st \<noteq> []")
    case True
    with openBlock_closes [OF ob _ \<open>isKeyLine line\<close>] obtain keyLine where
      "closedBlock (ls @ [line]) keyLine (value st)" "key st = String_trim (String_trimLines keyLine)"
      by blast
    with old True show ?thesis unfolding fromBlocks_def st' by auto
  next
    case False
    with old show ?thesis unfolding fromBlocks_def st' by auto
  qed
  moreover have "openBlock (ls @ [line]) (key st') (value st')"
    unfolding openBlock_def st' using True
    by (intro disjI2 exI [of _ ls] exI [of _ line] exI [of _ "[]"]) simp
  ultimately show ?thesis by simp
next
  case False
  with step have ne: "line \<noteq> []" and tl: "isTextLine line"
    by (auto simp: templateLine_def isKeyLine_def isTextLine_def split: if_splits)
  with False step have st': "st' = st\<lparr>value := value st @ line\<rparr>"
    by (simp add: templateLine_def isKeyLine_def)
  have "fromBlocks (ls @ [line]) (templateDat st')"
    using fromBlocks_snoc [OF fb] by (simp add: st')
  moreover have "openBlock (ls @ [line]) (key st') (value st')"
    using ob
  proof (unfold openBlock_def, elim disjE exE conjE)
    assume "\<forall>l \<in> set ls. isTextLine l" "key st = []" "value st = concat ls"
    with tl show "(\<forall>l\<in>set (ls @ [line]). isTextLine l) \<and> key st' = [] \<and>
        value st' = concat (ls @ [line]) \<or>
        (\<exists>pre keyLine body. ls @ [line] = pre @ keyLine # body \<and> isKeyLine keyLine \<and>
          (\<forall>l\<in>set body. isTextLine l) \<and> key st' = String_trim (String_trimLines keyLine) \<and>
          value st' = concat body)"
      by (simp add: st')
  next
    fix pre keyLine body
    assume "ls = pre @ keyLine # body" "isKeyLine keyLine" "\<forall>l \<in> set body. isTextLine l"
      "key st = String_trim (String_trimLines keyLine)" "value st = concat body"
    with tl have "ls @ [line] = pre @ keyLine # (body @ [line]) \<and> isKeyLine keyLine \<and>
          (\<forall>l\<in>set (body @ [line]). isTextLine l) \<and>
          key st' = String_trim (String_trimLines keyLine) \<and>
          value st' = concat (body @ [line])"
      by (simp add: st')
    then show "(\<forall>l\<in>set (ls @ [line]). isTextLine l) \<and> key st' = [] \<and>
        value st' = concat (ls @ [line]) \<or>
        (\<exists>pre keyLine body. ls @ [line] = pre @ keyLine # body \<and> isKeyLine keyLine \<and>
          (\<forall>l\<in>set body. isTextLine l) \<and> key st' = String_trim (String_trimLines keyLine) \<and>
          value st' = concat body)"
      by blast
  qed
  ultimately show ?thesis by simp
qed

lemma templateLoop_inv:
  "templateLoop st rest = Inr st' \<Longrightarrow> fromBlocks ls (templateDat st) \<Longrightarrow>
   openBlock ls (key st) (value st) \<Longrightarrow> fromBlocks (ls @ rest) (templateDat st')"
proof (induction rest arbitrary: st ls)
  case Nil
  then show ?case by simp
next
  case (Cons line rest)
  from Cons.prems(1) obtain st1 where
    s1: "templateLine st line = Inr st1" and s2: "templateLoop st1 rest = Inr st'"
    by (auto split: sum.splits)
  from templateLine_inv [OF s1 Cons.prems(2,3)]
  have "fromBlocks (ls @ [line]) (templateDat st1)"
    "openBlock (ls @ [line]) (key st1) (value st1)" by simp_all
  from Cons.IH [OF s2 this] show ?case by simp
qed

text \<open>
  C4, amended: for every key stored in the template table after parsing completes, the
  stored value is the text of a block of the input (the lines between the key line and
  the next \<open>#\<close> line) with its carriage returns replaced by newlines, then its trailing
  newlines removed, then one trailing \<open>&\<close> removed, once; it is empty or ends with neither
  a newline nor \<open>&\<close>, unless the text ended, after the removal of the trailing newlines,
  with a newline or an \<open>&\<close> followed by the \<open>&\<close> that was removed.
\<close>

theorem template_values_cleaned:
  assumes "parseTemplateDat text = Inr tbl" and "tbl k = Some v"
  shows "\<exists>keyLine raw. closedBlock (getlines text) keyLine raw \<and>
     k = String_trim (String_trimLines keyLine) \<and> v = cleanValue raw \<and>
     (v = [] \<or> (last v \<noteq> CHR 0x0A \<and> last v \<noteq> CHR ''&'') \<or>
      pop_back_newlines (String_replace raw (CHR 0x0D) (CHR 0x0A)) = v @ ''&'')"
proof -
  from assms(1) obtain st where
    st: "templateLoop \<lparr>templateDat = Map.empty, key = [], value = []\<rparr> (getlines text) = Inr st"
    and tbl: "tbl = (templateDat st)([] := None)"
    by (auto simp: parseTemplateDat_def split: sum.splits)
  have "fromBlocks ([] @ getlines text) (templateDat st)"
    using st by (rule templateLoop_inv) (simp_all add: fromBlocks_def openBlock_def)
  moreover from assms(2) tbl have "templateDat st k = Some v \<and> k \<noteq> []"
    by (simp split: if_splits)
  ultimately obtain keyLine raw where "closedBlock (getlines text) keyLine raw"
    "k = String_trim (String_trimLines keyLine)" "v = cleanValue raw"
    unfolding fromBlocks_def by force
  with cleanValue_shape [of raw] show ?thesis by auto
qed

theorem template_values_cleaned_witness:
  "templateDatTextOf (''#A'' @ [CHR 0x0D, CHR 0x0A] @ ''abc&'' @ [CHR 0x0D, CHR 0x0A] @
      ''#'' @ [CHR 0x0D, CHR 0x0A]) ''#A'' = Inr ''abc'' \<and>
   (\<exists>keyLine raw. closedBlock (getlines (''#A'' @ [CHR 0x0D, CHR 0x0A] @ ''abc&'' @
        [CHR 0x0D, CHR 0x0A] @ ''#'' @ [CHR 0x0D, CHR 0x0A])) keyLine raw \<and>
      ''#A'' = String_trim (String_trimLines keyLine) \<and> ''abc'' = cleanValue raw)"
proof -
  have p: "parseTemplateDat (''#A'' @ [CHR 0x0D, CHR 0x0A] @ ''abc&'' @ [CHR 0x0D, CHR 0x0A] @
      ''#'' @ [CHR 0x0D, CHR 0x0A]) = Inr [''#A'' \<mapsto> ''abc'']"
    by (simp add: template_eval fun_eq_iff)
  have l: "[''#A'' \<mapsto> ''abc''] ''#A'' = Some ''abc''" by simp
  from template_values_cleaned [OF p l] p show ?thesis
    by (auto simp: templateDatTextOf_def getTemplateDatText_def)
qed

subsection \<open>The last record of a text\<close>

text \<open>
  The quiz parser adds the record in progress after the last line: a parse that
  succeeds ends with the question built from the final state of the loop.
\<close>

lemma parseQuestionTxt_flushes_last:
  assumes "parseQuestionTxt text = Inr qs"
  shows "\<exists>st ca cb cc.
     questionLoop \<lparr>questionTxt = [], qdescription = [], qa = [], qb = [], qc = [],
       mode = Description\<rparr> (getlines text) = Inr st \<and>
     qs = questionTxt st @ [\<lparr>description = qdescription st, choiceA = (qa st, ca),
       choiceB = (qb st, cb), choiceC = (qc st, cc)\<rparr>]"
  using assms by (auto simp: parseQuestionTxt_def addQuestion_def split: sum.splits)

text \<open>
  C1. Every structured-text parser flushes the record in progress after the last
  line, so that a final record without a delimiter line after it is in the output. The
  template parser and the dungeon parser have no such step: on a template text of one
  key with its value, and on a dungeon text of one name with its description, neither
  followed by a \<open>#\<close> line, the parsed table and list are empty.
\<close>

theorem last_record_not_flushed:
  "parseTemplateDat (''#0000'' @ [CHR 0x0D, CHR 0x0A] @ ''Hello&'' @ [CHR 0x0D, CHR 0x0A]) =
     Inr Map.empty \<and>
   parseDungeonTxt (''Name'' @ [CHR 0x0D, CHR 0x0A] @ ''Text'' @ [CHR 0x0D, CHR 0x0A]) = Inr []"
  by (simp add: template_eval parseDungeonTxt_def dungeonLine_def fun_eq_iff)

end
